theory Spec2Isabelle
  imports Complex_Main "HOL-Library.Sublist"
begin

section \<open>Python strings\<close>

text \<open>
  Strings are lists of 8-bit characters. \<open>contains sub s\<close> is Python's \<open>sub in s\<close>
  (a contiguous substring test), \<open>lower\<close> is \<open>str.lower\<close> on the ASCII letters.
\<close>

fun contains :: "string \<Rightarrow> string \<Rightarrow> bool" where
  "contains sub [] = (sub = [])"
| "contains sub (c # cs) = (prefix sub (c # cs) \<or> contains sub cs)"

definition lower_char :: "char \<Rightarrow> char" where
  "lower_char c =
     (case map_of (zip ''ABCDEFGHIJKLMNOPQRSTUVWXYZ'' ''abcdefghijklmnopqrstuvwxyz'') c of
        Some d \<Rightarrow> d
      | None \<Rightarrow> c)"

definition lower :: "string \<Rightarrow> string" where
  "lower s = map lower_char s"

section \<open>modal\_handler.py\<close>

subsection \<open>WindowInfo\<close>

text \<open>
  The dataclass \<open>WindowInfo\<close>. The fields \<open>name\<close>, \<open>x\<close>, \<open>y\<close>, \<open>width\<close> and
  \<open>height\<close> carry the prefix \<open>win_\<close> here.
\<close>

record WindowInfo =
  window_id :: string
  win_name :: string
  win_x :: int
  win_y :: int
  win_width :: int
  win_height :: int
  wm_class :: string

definition is_small_dialog :: "WindowInfo \<Rightarrow> bool" where
  "is_small_dialog w = (win_width w > 0 \<and> win_width w < 500 \<and> win_height w < 400)"

definition alert_keywords :: "string list" where
  "alert_keywords = [''alert'', ''error'', ''warning'', ''confirm'', ''delete'',
                     ''save'', ''open'', ''choose'', ''panel'']"

definition looks_like_alert :: "WindowInfo \<Rightarrow> bool" where
  "looks_like_alert w =
     (let name_lower = lower (win_name w);
          class_lower = lower (wm_class w)
      in list_ex (\<lambda>kw. contains kw name_lower \<or> contains kw class_lower) alert_keywords)"

subsection \<open>ModalHandler\<close>

definition workspace_names :: "string list" where
  "workspace_names = [''Workspace'', ''Inspector'', ''Info'', ''Finder'', ''Run'',
                      ''Workspace Preferences'', ''About'', ''Console'', ''Recycler'',
                      ''Open With'', ''Go to Folder'']"

definition is_workspace_window :: "WindowInfo \<Rightarrow> bool" where
  "is_workspace_window window =
     (if contains ''GNUstep'' (wm_class window) \<or> contains ''Workspace'' (wm_class window)
      then True
      else list_ex (\<lambda>n. contains n (win_name window)) workspace_names)"

text \<open>
  \<open>get_focused_window\<close> asks the window manager through xdotool and xprop; what it
  returns (a \<open>WindowInfo\<close>, or \<open>None\<close> when the active window cannot be determined) is
  the argument \<open>focused\<close> of the two detection functions. \<open>expected_focus\<close> is an
  optional string; Python's \<open>if expected_focus:\<close> holds for a non-empty string only.
\<close>

definition has_focus_stealer :: "WindowInfo option \<Rightarrow> string option \<Rightarrow> bool" where
  "has_focus_stealer focused_opt expected_focus =
     (case focused_opt of
        None \<Rightarrow> False
      | Some focused \<Rightarrow>
          (case expected_focus of
             Some (e # es) \<Rightarrow>
               (if contains (lower (e # es)) (lower (win_name focused)) then False
                else if is_workspace_window focused then
                  (if looks_like_alert focused \<or> is_small_dialog focused then True else False)
                else True)
           | _ \<Rightarrow>
               (if is_workspace_window focused then
                  (if looks_like_alert focused then True else False)
                else True)))"

definition known_panels :: "string list" where
  "known_panels = [''Inspector'', ''Finder'', ''Preferences'', ''Run'']"

definition detect_modal_dialog :: "WindowInfo option \<Rightarrow> WindowInfo option" where
  "detect_modal_dialog focused_opt =
     (case focused_opt of
        None \<Rightarrow> None
      | Some focused \<Rightarrow>
          (if looks_like_alert focused then Some focused
           else if is_small_dialog focused \<and> is_workspace_window focused
                   \<and> \<not> list_ex (\<lambda>p. contains p (win_name focused)) known_panels
                then Some focused
           else None))"

subsection \<open>Dismissal\<close>

text \<open>
  The dismissal strategies act on the X session through xdotool. The session is a state
  of an arbitrary type \<open>'w\<close>; the record \<open>xsession\<close> holds what the window manager
  answers to \<open>get_focused_window\<close> in a state and how a key press, a pointer move, a
  button click and the passing of time (in milliseconds) change the state.
  \<open>_run_xdotool\<close> swallows every failure of the tool and the strategies ignore its
  result, so no strategy raises.
\<close>

record 'w xsession =
  get_focused_window :: "'w \<Rightarrow> WindowInfo option"
  xdotool_key :: "string \<Rightarrow> 'w \<Rightarrow> 'w"
  xdotool_mousemove :: "int \<Rightarrow> int \<Rightarrow> 'w \<Rightarrow> 'w"
  xdotool_click :: "nat \<Rightarrow> 'w \<Rightarrow> 'w"
  sleep_ms :: "nat \<Rightarrow> 'w \<Rightarrow> 'w"

text \<open>The loop \<open>for i in range(max_attempts)\<close> of \<open>dismiss_with_escape\<close>.\<close>

fun escape_loop :: "'w xsession \<Rightarrow> WindowInfo option \<Rightarrow> nat \<Rightarrow> 'w \<Rightarrow> bool \<times> 'w" where
  "escape_loop X initial_focus 0 w = (False, w)"
| "escape_loop X initial_focus (Suc n) w =
     (let w1 = xdotool_key X ''Escape'' w;
          w2 = sleep_ms X 200 w1
      in case (get_focused_window X w2, initial_focus) of
           (Some new_focus, Some initial) \<Rightarrow>
             (if window_id new_focus \<noteq> window_id initial then (True, w2)
              else escape_loop X initial_focus n w2)
         | _ \<Rightarrow> escape_loop X initial_focus n w2)"

definition dismiss_with_escape :: "'w xsession \<Rightarrow> nat \<Rightarrow> 'w \<Rightarrow> bool \<times> 'w" where
  "dismiss_with_escape X max_attempts w =
     escape_loop X (get_focused_window X w) max_attempts w"

definition dismiss_with_return :: "'w xsession \<Rightarrow> 'w \<Rightarrow> bool \<times> 'w" where
  "dismiss_with_return X w =
     (let initial_focus = get_focused_window X w;
          w1 = xdotool_key X ''Return'' w;
          w2 = sleep_ms X 300 w1
      in case (get_focused_window X w2, initial_focus) of
           (Some new_focus, Some initial) \<Rightarrow>
             (if window_id new_focus \<noteq> window_id initial then (True, w2) else (False, w2))
         | _ \<Rightarrow> (False, w2))"

definition click_button_in_dialog :: "'w xsession \<Rightarrow> string \<Rightarrow> 'w \<Rightarrow> bool \<times> 'w" where
  "click_button_in_dialog X position w =
     (case get_focused_window X w of
        None \<Rightarrow> (False, w)
      | Some focused \<Rightarrow>
          (if win_width focused = 0 then (False, w)
           else
             (let button_y = win_y focused + win_height focused - 40;
                  button_x =
                    (if position = ''right'' then win_x focused + win_width focused - 80
                     else if position = ''left'' then win_x focused + 80
                     else win_x focused + win_width focused div 2);
                  w1 = xdotool_mousemove X button_x button_y w;
                  w2 = sleep_ms X 100 w1;
                  w3 = xdotool_click X 1 w2;
                  w4 = sleep_ms X 200 w3
              in (True, w4))))"

definition close_window :: "'w xsession \<Rightarrow> 'w \<Rightarrow> bool \<times> 'w" where
  "close_window X w =
     (let w1 = xdotool_key X ''alt+w'' w;
          w2 = sleep_ms X 300 w1
      in (True, w2))"

definition dismiss_auto :: "'w xsession \<Rightarrow> 'w \<Rightarrow> bool \<times> 'w" where
  "dismiss_auto X w =
     (case dismiss_with_escape X 2 w of
        (True, w1) \<Rightarrow> (True, w1)
      | (False, w1) \<Rightarrow>
          (let (clicked, w2) = click_button_in_dialog X ''right'' w1;
               w3 = (if clicked then sleep_ms X 200 w2 else w2)
           in if clicked \<and> \<not> has_focus_stealer (get_focused_window X w3) None
              then (True, w3)
              else
                (let (closed, w4) = close_window X w3
                 in if closed then (True, sleep_ms X 200 w4) else (False, w4))))"

definition dismiss_focus_stealer :: "'w xsession \<Rightarrow> string \<Rightarrow> 'w \<Rightarrow> bool \<times> 'w" where
  "dismiss_focus_stealer X method w =
     (if method = ''auto'' then dismiss_auto X w
      else if method = ''escape'' then dismiss_with_escape X 3 w
      else if method = ''return'' then dismiss_with_return X w
      else if method = ''click'' then click_button_in_dialog X ''right'' w
      else if method = ''close'' then close_window X w
      else (False, w))"

section \<open>uitest.py\<close>

subsection \<open>Exceptions and the bridge process\<close>

text \<open>
  The exception classes of \<open>uitest.py\<close> and \<open>user_input.py\<close>, and the interpreter's
  own errors that the modelled code can meet. Each carries its message (\<open>str(e)\<close>).
  All of them derive from Python's \<open>Exception\<close>, so a handler \<open>except Exception\<close>
  catches every value of this type.
\<close>

datatype exn =
    UITestException string
  | WorkspaceNotRunningError string
  | CommandFailedError string
  | AssertionFailedError string
  | UserInputError string
  | TimeoutExpired string
  | OSError string
  | AttributeError string
  | TypeError string
  | ValueError string
  | ZeroDivisionError string

fun exn_str :: "exn \<Rightarrow> string" where
  "exn_str (UITestException m) = m"
| "exn_str (WorkspaceNotRunningError m) = m"
| "exn_str (CommandFailedError m) = m"
| "exn_str (AssertionFailedError m) = m"
| "exn_str (UserInputError m) = m"
| "exn_str (TimeoutExpired m) = m"
| "exn_str (OSError m) = m"
| "exn_str (AttributeError m) = m"
| "exn_str (TypeError m) = m"
| "exn_str (ValueError m) = m"
| "exn_str (ZeroDivisionError m) = m"

text \<open>
  What \<open>subprocess.run\<close> does with the bridge tool: it completes with stdout, stderr and
  a return code, or it raises (\<open>TimeoutExpired\<close> after the timeout, an \<open>OSError\<close> when
  the executable cannot be started). The bridge is a function from the argument list.
\<close>

datatype proc_outcome =
    Completed string string int
  | Raised exn

type_synonym bridge = "string list \<Rightarrow> proc_outcome"

text \<open>
  \<open>_run_command\<close>. The body of the \<open>try\<close> is \<open>run_command_try\<close>; the two handlers
  follow in the source's order: \<open>except subprocess.TimeoutExpired\<close>, then
  \<open>except Exception as e\<close>.
\<close>

definition run_command_try :: "bridge \<Rightarrow> string list \<Rightarrow> exn + (string \<times> string \<times> int)" where
  "run_command_try br args =
     (case br args of
        Raised e \<Rightarrow> Inl e
      | Completed out err rc \<Rightarrow>
          (if contains ''Cannot contact Workspace'' err
           then Inl (WorkspaceNotRunningError
                  ''Workspace is not running or not responding. Start Workspace with: Workspace -d'')
           else Inr (out, err, rc)))"

definition run_command :: "bridge \<Rightarrow> string list \<Rightarrow> exn + (string \<times> string \<times> int)" where
  "run_command br args =
     (case run_command_try br args of
        Inr r \<Rightarrow> Inr r
      | Inl (TimeoutExpired m) \<Rightarrow> Inl (CommandFailedError ''uitest command timed out'')
      | Inl e \<Rightarrow> Inl (CommandFailedError (''Failed to run uitest: '' @ exn_str e)))"

subsection \<open>JSON values\<close>

text \<open>
  The values \<open>json.loads\<close> produces. A dict is the list of its items in order;
  \<open>map_of\<close> looks a key up.
\<close>

datatype json =
    JNull
  | JBool bool
  | JInt int
  | JFloat real
  | JStr string
  | JArr "json list"
  | JObj "(string \<times> json) list"

fun type_name :: "json \<Rightarrow> string" where
  "type_name JNull = ''NoneType''"
| "type_name (JBool b) = ''bool''"
| "type_name (JInt i) = ''int''"
| "type_name (JFloat r) = ''float''"
| "type_name (JStr s) = ''str''"
| "type_name (JArr xs) = ''list''"
| "type_name (JObj kvs) = ''dict''"

text \<open>\<open>obj.get(key)\<close> and \<open>obj.get(key, default)\<close>: only a dict has the method.\<close>

fun dict_get :: "json \<Rightarrow> string \<Rightarrow> exn + json option" where
  "dict_get (JObj kvs) k = Inr (map_of kvs k)"
| "dict_get v k =
     Inl (AttributeError ([CHR 0x27] @ type_name v @ [CHR 0x27] @ '' object has no attribute '' @
            [CHR 0x27] @ ''get'' @ [CHR 0x27]))"

definition dict_get_default :: "json \<Rightarrow> string \<Rightarrow> json \<Rightarrow> exn + json" where
  "dict_get_default v k d =
     (case dict_get v k of
        Inl e \<Rightarrow> Inl e
      | Inr None \<Rightarrow> Inr d
      | Inr (Some x) \<Rightarrow> Inr x)"

text \<open>
  \<open>for item in v\<close>: the items of a list, the keys of a dict, the characters of a string;
  anything else is not iterable.
\<close>

fun py_iter :: "json \<Rightarrow> exn + json list" where
  "py_iter (JArr xs) = Inr xs"
| "py_iter (JObj kvs) = Inr (map (\<lambda>kv. JStr (fst kv)) kvs)"
| "py_iter (JStr s) = Inr (map (\<lambda>c. JStr [c]) s)"
| "py_iter v = Inl (TypeError ([CHR 0x27] @ type_name v @ [CHR 0x27] @ '' object is not iterable''))"

subsection \<open>The client and the JSON extractor\<close>

record client =
  uitest_path :: string
  last_json_response :: "json option"

text \<open>
  The environment of a client: the bridge tool and the library function \<open>json.loads\<close>,
  which returns the parsed value or raises \<open>JSONDecodeError\<close> with a message (\<open>Inl\<close>).
\<close>

record env =
  bridge_tool :: bridge
  json_loads :: "string \<Rightarrow> string + json"

text \<open>\<open>str.split('\n')\<close> and \<open>'\n'.join\<close>.\<close>

fun split_nl :: "string \<Rightarrow> string list" where
  "split_nl [] = [[]]"
| "split_nl (c # cs) =
     (if c = CHR 0x0A then [] # split_nl cs
      else (case split_nl cs of
              l # ls \<Rightarrow> (c # l) # ls
            | [] \<Rightarrow> [[c]]))"

fun join_nl :: "string list \<Rightarrow> string" where
  "join_nl [] = []"
| "join_nl [l] = l"
| "join_nl (l # ls) = l @ CHR 0x0A # join_nl ls"

text \<open>
  \<open>str.strip()\<close> removes leading and trailing whitespace: tab, line feed, vertical tab,
  form feed, carriage return, the separators 0x1C to 0x1F, and space.
\<close>

definition is_space :: "char \<Rightarrow> bool" where
  "is_space c = (c \<in> set [CHR 0x09, CHR 0x0A, CHR 0x0B, CHR 0x0C, CHR 0x0D,
                            CHR 0x1C, CHR 0x1D, CHR 0x1E, CHR 0x1F, CHR 0x20])"

definition strip :: "string \<Rightarrow> string" where
  "strip s = rev (dropWhile is_space (rev (dropWhile is_space s)))"

definition json_line :: "string \<Rightarrow> bool" where
  "json_line line = prefix ''{'' (strip line)"

text \<open>The loop \<open>for i, line in enumerate(lines)\<close> with its \<open>break\<close>.\<close>

fun find_json_start :: "nat \<Rightarrow> string list \<Rightarrow> nat option" where
  "find_json_start i [] = None"
| "find_json_start i (line # lines) =
     (if json_line line then Some i else find_json_start (Suc i) lines)"

definition extract_json :: "env \<Rightarrow> client \<Rightarrow> string \<Rightarrow> (exn + json) \<times> client" where
  "extract_json E c output =
     (let lines = split_nl output
      in case find_json_start 0 lines of
           None \<Rightarrow> (Inl (UITestException (''No JSON found in output: '' @ take 200 output)), c)
         | Some json_start \<Rightarrow>
             (let json_text = join_nl (drop json_start lines)
              in case json_loads E json_text of
                   Inr data \<Rightarrow> (Inr data, c\<lparr>last_json_response := Some data\<rparr>)
                 | Inl e \<Rightarrow> (Inl (UITestException (''Failed to parse JSON response: '' @ e)), c)))"

definition query_ui_state :: "env \<Rightarrow> client \<Rightarrow> (exn + json) \<times> client" where
  "query_ui_state E c =
     (case run_command (bridge_tool E) [''query'', ''--json''] of
        Inl e \<Rightarrow> (Inl e, c)
      | Inr (stdout, stderr, code) \<Rightarrow>
          (if code \<noteq> 0 then (Inl (CommandFailedError (''Failed to query UI state: '' @ stderr)), c)
           else extract_json E c stdout))"

subsection \<open>Window and text queries\<close>

text \<open>
  \<open>window_exists\<close>: the body of the \<open>try\<close>, with the loop over the windows, and the
  handler \<open>except Exception: return False\<close>. \<open>window.get('title') == title\<close> holds
  when the key is present with the string \<open>title\<close> as its value.
\<close>

fun window_loop :: "string \<Rightarrow> json list \<Rightarrow> exn + bool" where
  "window_loop title [] = Inr False"
| "window_loop title (window # windows) =
     (case dict_get window ''title'' of
        Inl e \<Rightarrow> Inl e
      | Inr t1 \<Rightarrow>
          (if t1 = Some (JStr title) then Inr True
           else (case dict_get window ''windowTitle'' of
                   Inl e \<Rightarrow> Inl e
                 | Inr t2 \<Rightarrow>
                     (if t2 = Some (JStr title) then Inr True
                      else window_loop title windows))))"

definition window_exists_try :: "env \<Rightarrow> client \<Rightarrow> string \<Rightarrow> (exn + bool) \<times> client" where
  "window_exists_try E c title =
     (case query_ui_state E c of
        (Inl e, c') \<Rightarrow> (Inl e, c')
      | (Inr state, c') \<Rightarrow>
          (case dict_get_default state ''windows'' (JArr []) of
             Inl e \<Rightarrow> (Inl e, c')
           | Inr windows \<Rightarrow>
               (case py_iter windows of
                  Inl e \<Rightarrow> (Inl e, c')
                | Inr ws \<Rightarrow> (window_loop title ws, c'))))"

definition window_exists :: "env \<Rightarrow> client \<Rightarrow> string \<Rightarrow> bool \<times> client" where
  "window_exists E c title =
     (case window_exists_try E c title of
        (Inl e, c') \<Rightarrow> (False, c')
      | (Inr b, c') \<Rightarrow> (b, c'))"

text \<open>
  \<open>element_text.lower()\<close> exists on strings only; \<open>search_text in element_text\<close> is a
  substring test on a string, membership in a list, key membership in a dict, and a
  \<open>TypeError\<close> on anything else.
\<close>

fun py_lower :: "json \<Rightarrow> exn + json" where
  "py_lower (JStr s) = Inr (JStr (lower s))"
| "py_lower v =
     Inl (AttributeError ([CHR 0x27] @ type_name v @ [CHR 0x27] @ '' object has no attribute '' @
            [CHR 0x27] @ ''lower'' @ [CHR 0x27]))"

fun py_in :: "string \<Rightarrow> json \<Rightarrow> exn + bool" where
  "py_in q (JStr s) = Inr (contains q s)"
| "py_in q (JArr xs) = Inr (JStr q \<in> set xs)"
| "py_in q (JObj kvs) = Inr (q \<in> set (map fst kvs))"
| "py_in q v =
     Inl (TypeError (''argument of type '' @ [CHR 0x27] @ type_name v @ [CHR 0x27] @
            '' is not iterable''))"

text \<open>The test on the \<open>text\<close> field of a dict in \<open>search_in_tree\<close>.\<close>

definition text_check :: "bool \<Rightarrow> string \<Rightarrow> (string \<times> json) list \<Rightarrow> exn + bool" where
  "text_check case_sensitive search_text kvs =
     (case map_of kvs ''text'' of
        None \<Rightarrow> Inr False
      | Some element_text \<Rightarrow>
          (case (if case_sensitive then Inr element_text else py_lower element_text) of
             Inl e \<Rightarrow> Inl e
           | Inr element_text' \<Rightarrow> py_in search_text element_text'))"

lemma map_of_size_less:
  "map_of kvs k = Some v \<Longrightarrow> size v < Suc (size_list (size_prod (\<lambda>_. 0) size) kvs)"
  by (induction kvs) (auto split: if_splits)

text \<open>
  The nested function \<open>search_in_tree\<close> of \<open>text_visible\<close>; \<open>search_in_list\<close> is its
  loop over a list with the early \<open>return True\<close>. It recurses into \<open>obj['children']\<close>
  only. When \<open>obj['children']\<close> is a dict or a string, the loop runs over its keys or
  characters, which are strings, and \<open>search_in_tree\<close> of a string is \<open>False\<close>; when it is
  not iterable the loop raises.
\<close>

function search_in_tree :: "bool \<Rightarrow> string \<Rightarrow> json \<Rightarrow> exn + bool"
  and search_in_list :: "bool \<Rightarrow> string \<Rightarrow> json list \<Rightarrow> exn + bool" where
  "search_in_tree cs q (JObj kvs) =
     (case text_check cs q kvs of
        Inl e \<Rightarrow> Inl e
      | Inr True \<Rightarrow> Inr True
      | Inr False \<Rightarrow>
          (case map_of kvs ''children'' of
             None \<Rightarrow> Inr False
           | Some (JArr xs) \<Rightarrow> search_in_list cs q xs
           | Some v \<Rightarrow> (case py_iter v of Inl e \<Rightarrow> Inl e | Inr items \<Rightarrow> Inr False)))"
| "search_in_tree cs q (JArr xs) = search_in_list cs q xs"
| "search_in_tree cs q JNull = Inr False"
| "search_in_tree cs q (JBool b) = Inr False"
| "search_in_tree cs q (JInt i) = Inr False"
| "search_in_tree cs q (JFloat r) = Inr False"
| "search_in_tree cs q (JStr s) = Inr False"
| "search_in_list cs q [] = Inr False"
| "search_in_list cs q (x # xs) =
     (case search_in_tree cs q x of
        Inl e \<Rightarrow> Inl e
      | Inr True \<Rightarrow> Inr True
      | Inr False \<Rightarrow> search_in_list cs q xs)"
  by pat_completeness auto
termination
  apply (relation "measure (\<lambda>a. case a of Inl (cs, q, v) \<Rightarrow> size v
                                        | Inr (cs, q, xs) \<Rightarrow> size_list size xs)")
    apply simp_all
  apply (drule map_of_size_less)
  apply simp
  done

definition text_visible_try :: "env \<Rightarrow> client \<Rightarrow> string \<Rightarrow> bool \<Rightarrow> (exn + bool) \<times> client" where
  "text_visible_try E c text case_sensitive =
     (case query_ui_state E c of
        (Inl e, c') \<Rightarrow> (Inl e, c')
      | (Inr state, c') \<Rightarrow>
          (let search_text = (if case_sensitive then text else lower text)
           in case dict_get_default state ''windows'' (JArr []) of
                Inl e \<Rightarrow> (Inl e, c')
              | Inr windows \<Rightarrow>
                  (case py_iter windows of
                     Inl e \<Rightarrow> (Inl e, c')
                   | Inr ws \<Rightarrow> (search_in_list case_sensitive search_text ws, c'))))"

definition text_visible :: "env \<Rightarrow> client \<Rightarrow> string \<Rightarrow> bool \<Rightarrow> bool \<times> client" where
  "text_visible E c text case_sensitive =
     (case text_visible_try E c text case_sensitive of
        (Inl e, c') \<Rightarrow> (False, c')
      | (Inr b, c') \<Rightarrow> (b, c'))"

text \<open>
  The nested function \<open>count_class\<close> of \<open>count_elements_by_class\<close>: it adds one for a
  dict whose \<open>class\<close> is the name and descends into each of the keys \<open>children\<close>,
  \<open>contentView\<close> and \<open>views\<close> that is present.
\<close>

function count_class :: "string \<Rightarrow> json \<Rightarrow> nat"
  and count_class_list :: "string \<Rightarrow> json list \<Rightarrow> nat" where
  "count_class class_name (JObj kvs) =
     (if map_of kvs ''class'' = Some (JStr class_name) then 1 else 0)
     + (case map_of kvs ''children'' of None \<Rightarrow> 0 | Some v \<Rightarrow> count_class class_name v)
     + (case map_of kvs ''contentView'' of None \<Rightarrow> 0 | Some v \<Rightarrow> count_class class_name v)
     + (case map_of kvs ''views'' of None \<Rightarrow> 0 | Some v \<Rightarrow> count_class class_name v)"
| "count_class class_name (JArr xs) = count_class_list class_name xs"
| "count_class class_name JNull = 0"
| "count_class class_name (JBool b) = 0"
| "count_class class_name (JInt i) = 0"
| "count_class class_name (JFloat r) = 0"
| "count_class class_name (JStr s) = 0"
| "count_class_list class_name [] = 0"
| "count_class_list class_name (x # xs) =
     count_class class_name x + count_class_list class_name xs"
  by pat_completeness auto
termination
  apply (relation "measure (\<lambda>a. case a of Inl (q, v) \<Rightarrow> size v
                                        | Inr (q, xs) \<Rightarrow> size_list size xs)")
      apply simp_all
    apply (drule map_of_size_less, simp)+
  done

definition count_elements_by_class :: "env \<Rightarrow> client \<Rightarrow> string \<Rightarrow> nat \<times> client" where
  "count_elements_by_class E c class_name =
     (case query_ui_state E c of
        (Inl e, c') \<Rightarrow> (0, c')
      | (Inr state, c') \<Rightarrow>
          (case dict_get_default state ''windows'' (JArr []) of
             Inl e \<Rightarrow> (0, c')
           | Inr windows \<Rightarrow>
               (case py_iter windows of
                  Inl e \<Rightarrow> (0, c')
                | Inr ws \<Rightarrow> (count_class_list class_name ws, c'))))"

text \<open>
  \<open>get_visible_text_in_window\<close>: the nested function \<open>extract_texts\<close> appends the
  \<open>text\<close> of a dict when it is present and truthy, and descends into the same three
  keys. The loop over the windows extracts from the first window whose \<open>title\<close> is the
  given one and breaks; an exception leaves the list as it is, which is empty then.
\<close>

fun py_truthy :: "json \<Rightarrow> bool" where
  "py_truthy JNull = False"
| "py_truthy (JBool b) = b"
| "py_truthy (JInt i) = (i \<noteq> 0)"
| "py_truthy (JFloat r) = (r \<noteq> 0)"
| "py_truthy (JStr s) = (s \<noteq> [])"
| "py_truthy (JArr xs) = (xs \<noteq> [])"
| "py_truthy (JObj kvs) = (kvs \<noteq> [])"

function extract_texts :: "json \<Rightarrow> json list"
  and extract_texts_list :: "json list \<Rightarrow> json list" where
  "extract_texts (JObj kvs) =
     (case map_of kvs ''text'' of
        None \<Rightarrow> []
      | Some t \<Rightarrow> (if py_truthy t then [t] else []))
     @ (case map_of kvs ''children'' of None \<Rightarrow> [] | Some v \<Rightarrow> extract_texts v)
     @ (case map_of kvs ''contentView'' of None \<Rightarrow> [] | Some v \<Rightarrow> extract_texts v)
     @ (case map_of kvs ''views'' of None \<Rightarrow> [] | Some v \<Rightarrow> extract_texts v)"
| "extract_texts (JArr xs) = extract_texts_list xs"
| "extract_texts JNull = []"
| "extract_texts (JBool b) = []"
| "extract_texts (JInt i) = []"
| "extract_texts (JFloat r) = []"
| "extract_texts (JStr s) = []"
| "extract_texts_list [] = []"
| "extract_texts_list (x # xs) = extract_texts x @ extract_texts_list xs"
  by pat_completeness auto
termination
  apply (relation "measure (\<lambda>a. case a of Inl v \<Rightarrow> size v | Inr xs \<Rightarrow> size_list size xs)")
      apply simp_all
    apply (drule map_of_size_less, simp)+
  done

fun texts_loop :: "string \<Rightarrow> json list \<Rightarrow> exn + json list" where
  "texts_loop title [] = Inr []"
| "texts_loop title (window # windows) =
     (case dict_get window ''title'' of
        Inl e \<Rightarrow> Inl e
      | Inr t \<Rightarrow>
          (if t = Some (JStr title) then Inr (extract_texts window)
           else texts_loop title windows))"

definition get_visible_text_in_window :: "env \<Rightarrow> client \<Rightarrow> string \<Rightarrow> json list \<times> client" where
  "get_visible_text_in_window E c title =
     (case query_ui_state E c of
        (Inl e, c') \<Rightarrow> ([], c')
      | (Inr state, c') \<Rightarrow>
          (case dict_get_default state ''windows'' (JArr []) of
             Inl e \<Rightarrow> ([], c')
           | Inr windows \<Rightarrow>
               (case py_iter windows of
                  Inl e \<Rightarrow> ([], c')
                | Inr ws \<Rightarrow>
                    (case texts_loop title ws of
                       Inl e \<Rightarrow> ([], c')
                     | Inr texts \<Rightarrow> (texts, c')))))"


subsection \<open>Menu state\<close>

definition get_menu_state :: "env \<Rightarrow> client \<Rightarrow> (exn + json) \<times> client" where
  "get_menu_state E c =
     (case run_command (bridge_tool E) [''list-menus''] of
        Inl e \<Rightarrow> (Inl e, c)
      | Inr (stdout, stderr, code) \<Rightarrow>
          (if code \<noteq> 0 then (Inl (CommandFailedError (''Failed to get menu state: '' @ stderr)), c)
           else extract_json E c stdout))"

fun find_menu :: "string \<Rightarrow> json list \<Rightarrow> exn + json" where
  "find_menu menu_title [] = Inl (UITestException (''Menu not found: '' @ menu_title))"
| "find_menu menu_title (menu # menus) =
     (case dict_get menu ''title'' of
        Inl e \<Rightarrow> Inl e
      | Inr t \<Rightarrow>
          (if t = Some (JStr menu_title) then dict_get_default menu ''items'' (JArr [])
           else find_menu menu_title menus))"

definition get_menu_items :: "env \<Rightarrow> client \<Rightarrow> string \<Rightarrow> (exn + json) \<times> client" where
  "get_menu_items E c menu_title =
     (case get_menu_state E c of
        (Inl e, c') \<Rightarrow> (Inl e, c')
      | (Inr state, c') \<Rightarrow>
          (case dict_get_default state ''menus'' (JArr []) of
             Inl e \<Rightarrow> (Inl e, c')
           | Inr menus \<Rightarrow>
               (case py_iter menus of
                  Inl e \<Rightarrow> (Inl e, c')
                | Inr ms \<Rightarrow> (find_menu menu_title ms, c'))))"

fun find_item :: "string \<Rightarrow> string \<Rightarrow> json list \<Rightarrow> exn + json" where
  "find_item menu_title item_title [] =
     Inl (UITestException (''Menu item not found: '' @ menu_title @ '' > '' @ item_title))"
| "find_item menu_title item_title (item # items) =
     (case dict_get item ''title'' of
        Inl e \<Rightarrow> Inl e
      | Inr t \<Rightarrow>
          (if t = Some (JStr item_title) then dict_get_default item ''enabled'' (JBool False)
           else find_item menu_title item_title items))"

definition is_menu_item_enabled ::
  "env \<Rightarrow> client \<Rightarrow> string \<Rightarrow> string \<Rightarrow> (exn + json) \<times> client" where
  "is_menu_item_enabled E c menu_title item_title =
     (case get_menu_items E c menu_title of
        (Inl e, c') \<Rightarrow> (Inl e, c')
      | (Inr items, c') \<Rightarrow>
          (case py_iter items of
             Inl e \<Rightarrow> (Inl e, c')
           | Inr its \<Rightarrow> (find_item menu_title item_title its, c')))"

subsection \<open>The test runner\<close>

text \<open>
  A test is a name and a callable; what the callable does when it is called is a
  \<open>test_outcome\<close>: it returns a value or raises. \<open>run_loop\<close> is the \<open>for\<close> loop of
  \<open>run_tests\<close> with the list \<open>results\<close> it appends to; the three branches that record
  a failure are the \<open>result is False\<close> branch and the two handlers. The printing, and the
  highlighting attempted in the \<open>AssertionFailedError\<close> handler (enclosed in a bare
  \<open>except: pass\<close>), do not touch \<open>results\<close>.
\<close>

datatype test_outcome = Returns json | Raises exn

fun run_loop :: "bool \<Rightarrow> (string \<times> test_outcome) list \<Rightarrow> bool list \<Rightarrow> bool list" where
  "run_loop stop_on_failure [] results = results"
| "run_loop stop_on_failure ((test_name, test_func) # tests) results =
     (case test_func of
        Returns result \<Rightarrow>
          (if result = JBool False then
             (if stop_on_failure then results @ [False]
              else run_loop stop_on_failure tests (results @ [False]))
           else run_loop stop_on_failure tests (results @ [True]))
      | Raises (AssertionFailedError m) \<Rightarrow>
          (if stop_on_failure then results @ [False]
           else run_loop stop_on_failure tests (results @ [False]))
      | Raises e \<Rightarrow>
          (if stop_on_failure then results @ [False]
           else run_loop stop_on_failure tests (results @ [False])))"

definition run_tests :: "(string \<times> test_outcome) list \<Rightarrow> bool \<Rightarrow> int" where
  "run_tests tests stop_on_failure =
     (if tests = [] then 0
      else if list_all (\<lambda>r. r) (run_loop stop_on_failure tests []) then 0 else 1)"

section \<open>user\_input.py\<close>

text \<open>
  Python floats are idealised as real numbers; \<open>py_int\<close> is \<open>int()\<close> of a float,
  which truncates towards zero. The two calls of \<open>random.uniform(-1, 1)\<close> are the
  arguments \<open>r1\<close> and \<open>r2\<close>, in the order of the calls.

  The environment of \<open>move_mouse_smoothly\<close>: what \<open>_get_mouse_position\<close> returns or
  raises, and for each \<open>mousemove\<close> invocation of \<open>_run\<close> (counted from 0) whether it
  raises (\<open>UserInputError\<close> on a non-zero return code, \<open>TimeoutExpired\<close>). The function
  returns the positions given to xdotool, in order, or the exception that ended it.
\<close>

record xdotool_env =
  mouse_position :: "exn + int \<times> int"
  mousemove_raises :: "nat \<Rightarrow> exn option"

definition py_int :: "real \<Rightarrow> int" where
  "py_int r = (if r \<ge> 0 then \<lfloor>r\<rfloor> else \<lceil>r\<rceil>)"

definition run_mousemove ::
  "xdotool_env \<Rightarrow> int \<Rightarrow> int \<Rightarrow> (int \<times> int) list \<Rightarrow> exn + (int \<times> int) list" where
  "run_mousemove env x y emitted =
     (case mousemove_raises env (length emitted) of
        Some e \<Rightarrow> Inl e
      | None \<Rightarrow> Inr (emitted @ [(x, y)]))"

text \<open>The loop \<open>for i in range(1, steps + 1)\<close> along the quadratic Bezier curve.\<close>

fun bezier_loop ::
  "xdotool_env \<Rightarrow> int \<times> int \<Rightarrow> real \<times> real \<Rightarrow> int \<times> int \<Rightarrow> int \<Rightarrow> int list \<Rightarrow>
   (int \<times> int) list \<Rightarrow> exn + (int \<times> int) list" where
  "bezier_loop env cur ctl tgt steps [] emitted = Inr emitted"
| "bezier_loop env cur ctl tgt steps (i # is) emitted =
     (let t = real_of_int i / real_of_int steps;
          inv_t = 1 - t;
          x = py_int (inv_t * inv_t * real_of_int (fst cur) + 2 * inv_t * t * fst ctl
                      + t * t * real_of_int (fst tgt));
          y = py_int (inv_t * inv_t * real_of_int (snd cur) + 2 * inv_t * t * snd ctl
                      + t * t * real_of_int (snd tgt))
      in case run_mousemove env x y emitted of
           Inl e \<Rightarrow> Inl e
         | Inr emitted' \<Rightarrow> bezier_loop env cur ctl tgt steps is emitted')"

definition mouse_speed :: real where
  "mouse_speed = 800"

definition move_mouse_smoothly ::
  "xdotool_env \<Rightarrow> int \<Rightarrow> int \<Rightarrow> real option \<Rightarrow> real \<Rightarrow> real \<Rightarrow> real \<Rightarrow>
   exn + (int \<times> int) list" where
  "move_mouse_smoothly env target_x target_y speed_opt variation r1 r2 =
     (case mouse_position env of
        Inl e \<Rightarrow> Inl e
      | Inr (current_x, current_y) \<Rightarrow>
          (let speed = (case speed_opt of None \<Rightarrow> mouse_speed | Some s \<Rightarrow> s);
               dx = target_x - current_x;
               dy = target_y - current_y;
               distance = sqrt (real_of_int (dx * dx + dy * dy))
           in if distance < 5 then run_mousemove env target_x target_y []
              else if speed = 0 then Inl (ZeroDivisionError ''float division by zero'')
              else
                (let duration = max 0.1 (min 1.5 (distance / speed));
                     mid_x = real_of_int (current_x + target_x) / 2;
                     mid_y = real_of_int (current_y + target_y) / 2;
                     perp_x = - real_of_int dy * variation * r1;
                     perp_y = real_of_int dx * variation * r2;
                     control_x = mid_x + perp_x;
                     control_y = mid_y + perp_y;
                     steps = max 5 (min 30 (py_int (distance / 20)));
                     step_delay = duration / real_of_int steps
                 in case bezier_loop env (current_x, current_y) (control_x, control_y)
                           (target_x, target_y) steps [1..steps] [] of
                      Inl e \<Rightarrow> Inl e
                    | Inr emitted \<Rightarrow> run_mousemove env target_x target_y emitted)))"

section \<open>Specification-side definitions and concrete inputs\<close>

subsection \<open>Focus stealer and modal detection as the specification words them\<close>

text \<open>
  An expected title is supplied when the argument is a non-empty string; the focused
  window matches it when the title, lower-cased, occurs in the lower-cased window name.
\<close>

definition title_expected :: "string option \<Rightarrow> bool" where
  "title_expected expected = (case expected of Some (c # cs) \<Rightarrow> True | _ \<Rightarrow> False)"

definition matches_expected :: "string option \<Rightarrow> WindowInfo \<Rightarrow> bool" where
  "matches_expected expected f =
     (case expected of
        Some (c # cs) \<Rightarrow> contains (lower (c # cs)) (lower (win_name f))
      | _ \<Rightarrow> False)"

text \<open>
  The specification's \<open>hasFocusStealer\<close>: true if the focused window is not a
  target-application window, or if it is but looks like a modal (small-dialog or
  alert-keyword heuristic) and does not match the expected title.
\<close>

definition has_focus_stealer_spec :: "WindowInfo option \<Rightarrow> string option \<Rightarrow> bool" where
  "has_focus_stealer_spec focused_opt expected =
     (case focused_opt of
        None \<Rightarrow> False
      | Some f \<Rightarrow>
          \<not> is_workspace_window f
          \<or> (is_workspace_window f \<and> (is_small_dialog f \<or> looks_like_alert f)
              \<and> \<not> matches_expected expected f))"

text \<open>
  The specification's \<open>detectModalDialog\<close>, with the small-dialog predicate as the
  specification gives it: width below 500 and height below 400.
\<close>

definition detect_modal_dialog_spec :: "WindowInfo option \<Rightarrow> WindowInfo option" where
  "detect_modal_dialog_spec focused_opt =
     (case focused_opt of
        None \<Rightarrow> None
      | Some f \<Rightarrow>
          (if looks_like_alert f
              \<or> (is_workspace_window f \<and> win_width f < 500 \<and> win_height f < 400
                  \<and> \<not> list_ex (\<lambda>p. contains p (win_name f)) known_panels)
           then Some f else None))"

subsection \<open>Concrete windows and sessions\<close>

text \<open>A small Workspace dialog named Info, without any alert keyword.\<close>

definition info_dialog :: WindowInfo where
  "info_dialog = \<lparr>window_id = ''0x2a00007'', win_name = ''Info'', win_x = 200, win_y = 150,
     win_width = 300, win_height = 200, wm_class = []\<rparr>"

text \<open>The same window when xdotool gives no geometry: \<open>get_window_info\<close> leaves zeros.\<close>

definition info_no_geometry :: WindowInfo where
  "info_no_geometry = \<lparr>window_id = ''0x2a00007'', win_name = ''Info'', win_x = 0, win_y = 0,
     win_width = 0, win_height = 0, wm_class = []\<rparr>"

definition delete_confirmation :: WindowInfo where
  "delete_confirmation = \<lparr>window_id = ''0x2a00011'', win_name = ''Delete Confirmation'',
     win_x = 400, win_y = 300, win_width = 300, win_height = 200, wm_class = []\<rparr>"

definition finder_window :: WindowInfo where
  "finder_window = \<lparr>window_id = ''0x2a00015'', win_name = ''Finder'',
     win_x = 0, win_y = 0, win_width = 1200, win_height = 800, wm_class = []\<rparr>"

text \<open>A window of another application.\<close>

definition firefox :: WindowInfo where
  "firefox = \<lparr>window_id = ''0x3c00002'', win_name = ''Mozilla Firefox'', win_x = 100,
     win_y = 100, win_width = 800, win_height = 600, wm_class = ''Navigator''\<rparr>"

text \<open>
  A session in which that window keeps the focus whatever key is pressed or button
  clicked.
\<close>

definition frozen_session :: "unit xsession" where
  "frozen_session = \<lparr>get_focused_window = (\<lambda>w. Some firefox), xdotool_key = (\<lambda>k w. w),
     xdotool_mousemove = (\<lambda>x y w. w), xdotool_click = (\<lambda>b w. w), sleep_ms = (\<lambda>ms w. w)\<rparr>"

text \<open>A bridge that reports on stderr that Workspace cannot be contacted.\<close>

definition unreachable_bridge :: bridge where
  "unreachable_bridge = (\<lambda>args. Completed [] ''Cannot contact Workspace'' 1)"

subsection \<open>Test outcomes\<close>

text \<open>
  A test fails when its callable returns exactly \<open>False\<close> or raises. The executed tests
  are all of them, or with stop-on-failure those up to and including the first failure.
\<close>

definition test_failed :: "test_outcome \<Rightarrow> bool" where
  "test_failed t = (case t of Returns r \<Rightarrow> r = JBool False | Raises e \<Rightarrow> True)"

definition executed ::
  "bool \<Rightarrow> (string \<times> test_outcome) list \<Rightarrow> (string \<times> test_outcome) list" where
  "executed stop tests =
     (if stop then takeWhile (\<lambda>t. \<not> test_failed (snd t)) tests
                   @ take 1 (dropWhile (\<lambda>t. \<not> test_failed (snd t)) tests)
      else tests)"

text \<open>
  Three tests: the first passes, the second raises an assertion error, the third
  returns \<open>None\<close>.
\<close>

definition sample_tests :: "(string \<times> test_outcome) list" where
  "sample_tests =
     [(''window exists'', Returns (JBool True)),
      (''text visible'', Raises (AssertionFailedError ''Text not found in UI'')),
      (''cleanup'', Returns JNull)]"

subsection \<open>A pointer environment\<close>

text \<open>An xdotool that reports the pointer at the origin and never fails.\<close>

definition calm_xdotool :: xdotool_env where
  "calm_xdotool = \<lparr>mouse_position = Inr (0, 0), mousemove_raises = (\<lambda>n. None)\<rparr>"


subsection \<open>Snapshots, titles and reachable nodes\<close>

text \<open>
  The windows of the UI state snapshot a helper obtains during a call: the items of
  \<open>state.get('windows', [])\<close> when the query, the extraction and the iteration succeed.
\<close>

definition ui_windows :: "env \<Rightarrow> client \<Rightarrow> json list option" where
  "ui_windows E c =
     (case fst (query_ui_state E c) of
        Inl e \<Rightarrow> None
      | Inr state \<Rightarrow>
          (case dict_get_default state ''windows'' (JArr []) of
             Inl e \<Rightarrow> None
           | Inr windows \<Rightarrow>
               (case py_iter windows of
                  Inl e \<Rightarrow> None
                | Inr ws \<Rightarrow> Some ws)))"

definition is_dict :: "json \<Rightarrow> bool" where
  "is_dict j = (case j of JObj kvs \<Rightarrow> True | _ \<Rightarrow> False)"

text \<open>A node with the given title; a window with it under \<open>title\<close> or \<open>windowTitle\<close>.\<close>

definition has_title :: "string \<Rightarrow> json \<Rightarrow> bool" where
  "has_title t j =
     (case j of JObj kvs \<Rightarrow> map_of kvs ''title'' = Some (JStr t) | _ \<Rightarrow> False)"

definition window_titled :: "string \<Rightarrow> json \<Rightarrow> bool" where
  "window_titled t j =
     (case j of
        JObj kvs \<Rightarrow>
          map_of kvs ''title'' = Some (JStr t) \<or> map_of kvs ''windowTitle'' = Some (JStr t)
      | _ \<Rightarrow> False)"

text \<open>
  The dict nodes reachable from a value through list items and the \<open>children\<close> key
  alone, and those reachable through any of the three keys \<open>children\<close>,
  \<open>contentView\<close> and \<open>views\<close>, in depth-first order.
\<close>

function children_nodes :: "json \<Rightarrow> json list"
  and children_nodes_list :: "json list \<Rightarrow> json list" where
  "children_nodes (JObj kvs) =
     JObj kvs # (case map_of kvs ''children'' of
                   Some (JArr xs) \<Rightarrow> children_nodes_list xs
                 | _ \<Rightarrow> [])"
| "children_nodes (JArr xs) = children_nodes_list xs"
| "children_nodes JNull = []"
| "children_nodes (JBool b) = []"
| "children_nodes (JInt i) = []"
| "children_nodes (JFloat r) = []"
| "children_nodes (JStr s) = []"
| "children_nodes_list [] = []"
| "children_nodes_list (x # xs) = children_nodes x @ children_nodes_list xs"
  by pat_completeness auto
termination
  apply (relation "measure (\<lambda>a. case a of Inl v \<Rightarrow> size v | Inr xs \<Rightarrow> size_list size xs)")
    apply simp_all
  apply (drule map_of_size_less)
  apply simp
  done

function all_nodes :: "json \<Rightarrow> json list"
  and all_nodes_list :: "json list \<Rightarrow> json list" where
  "all_nodes (JObj kvs) =
     JObj kvs
     # (case map_of kvs ''children'' of None \<Rightarrow> [] | Some v \<Rightarrow> all_nodes v)
     @ (case map_of kvs ''contentView'' of None \<Rightarrow> [] | Some v \<Rightarrow> all_nodes v)
     @ (case map_of kvs ''views'' of None \<Rightarrow> [] | Some v \<Rightarrow> all_nodes v)"
| "all_nodes (JArr xs) = all_nodes_list xs"
| "all_nodes JNull = []"
| "all_nodes (JBool b) = []"
| "all_nodes (JInt i) = []"
| "all_nodes (JFloat r) = []"
| "all_nodes (JStr s) = []"
| "all_nodes_list [] = []"
| "all_nodes_list (x # xs) = all_nodes x @ all_nodes_list xs"
  by pat_completeness auto
termination
  apply (relation "measure (\<lambda>a. case a of Inl v \<Rightarrow> size v | Inr xs \<Rightarrow> size_list size xs)")
      apply simp_all
    apply (drule map_of_size_less, simp)+
  done

text \<open>
  A node whose text contains the search text, as \<open>search_in_tree\<close> tests it; a node of
  a class; the truthy text of a node, if it has one.
\<close>

definition text_matches :: "bool \<Rightarrow> string \<Rightarrow> json \<Rightarrow> bool" where
  "text_matches cs q n =
     (case n of JObj kvs \<Rightarrow> text_check cs q kvs = Inr True | _ \<Rightarrow> False)"

definition has_class :: "string \<Rightarrow> json \<Rightarrow> bool" where
  "has_class cn n =
     (case n of JObj kvs \<Rightarrow> map_of kvs ''class'' = Some (JStr cn) | _ \<Rightarrow> False)"

definition node_text :: "json \<Rightarrow> json list" where
  "node_text n =
     (case n of
        JObj kvs \<Rightarrow>
          (case map_of kvs ''text'' of
             None \<Rightarrow> []
           | Some t \<Rightarrow> (if py_truthy t then [t] else []))
      | _ \<Rightarrow> [])"

subsection \<open>A sample bridge\<close>

text \<open>
  A UI state with two windows. The text Hello of the first is reachable through
  \<open>contentView\<close> only; the second window carries its title under \<open>windowTitle\<close>.
\<close>

definition sample_ui_json :: string where
  \<open>sample_ui_json = ''{"uiTestingEnabled": true, "windows": [{"class": "NSWindow", "title": "Workspace", "contentView": {"class": "NSView", "children": [{"class": "NSTextField", "text": "Hello"}]}}, {"class": "NSPanel", "windowTitle": "Info", "children": [{"class": "NSButton", "text": "OK"}]}]}''\<close>

definition sample_ui_state :: json where
  "sample_ui_state =
     JObj [(''uiTestingEnabled'', JBool True),
           (''windows'', JArr [
              JObj [(''class'', JStr ''NSWindow''), (''title'', JStr ''Workspace''),
                    (''contentView'',
                       JObj [(''class'', JStr ''NSView''),
                             (''children'', JArr [
                                JObj [(''class'', JStr ''NSTextField''),
                                      (''text'', JStr ''Hello'')]])])],
              JObj [(''class'', JStr ''NSPanel''), (''windowTitle'', JStr ''Info''),
                    (''children'', JArr [
                       JObj [(''class'', JStr ''NSButton''), (''text'', JStr ''OK'')]])]])]"

text \<open>A menu state: the File menu with a disabled item, a separator and an enabled item.\<close>

definition sample_menu_json :: string where
  \<open>sample_menu_json = ''{"success": true, "menus": [{"title": "Info", "enabled": true, "items": []}, {"title": "File", "enabled": true, "items": [{"title": "New Folder", "enabled": false}, {"separator": true}, {"title": "Find", "enabled": true}]}]}''\<close>

definition file_items :: "json list" where
  "file_items =
     [JObj [(''title'', JStr ''New Folder''), (''enabled'', JBool False)],
      JObj [(''separator'', JBool True)],
      JObj [(''title'', JStr ''Find''), (''enabled'', JBool True)]]"

definition sample_menu_state :: json where
  "sample_menu_state =
     JObj [(''success'', JBool True),
           (''menus'', JArr [
              JObj [(''title'', JStr ''Info''), (''enabled'', JBool True), (''items'', JArr [])],
              JObj [(''title'', JStr ''File''), (''enabled'', JBool True),
                    (''items'', JArr file_items)]])]"

text \<open>
  The bridge prints a line of preamble before the JSON document; \<open>json.loads\<close> on the
  two documents gives the two values, and a decode error on any other text.
\<close>

definition sample_bridge :: bridge where
  "sample_bridge args =
     (if args = [''query'', ''--json'']
      then Completed (''Querying Workspace...'' @ [CHR 0x0A] @ sample_ui_json) [] 0
      else if args = [''list-menus'']
      then Completed (''Listing menus...'' @ [CHR 0x0A] @ sample_menu_json) [] 0
      else Completed [] ''Unknown command'' 1)"

definition sample_loads :: "string \<Rightarrow> string + json" where
  "sample_loads s =
     (if s = sample_ui_json then Inr sample_ui_state
      else if s = sample_menu_json then Inr sample_menu_state
      else Inl ''Expecting value: line 1 column 1 (char 0)'')"

definition sample_env :: env where
  "sample_env = \<lparr>bridge_tool = sample_bridge, json_loads = sample_loads\<rparr>"

definition new_client :: client where
  "new_client = \<lparr>uitest_path = ''/usr/bin/uitest'', last_json_response = None\<rparr>"


text \<open>The windows of the sample UI state.\<close>

definition sample_windows :: "json list" where
  "sample_windows = (case sample_ui_state of JObj kvs \<Rightarrow>
      (case map_of kvs ''windows'' of Some (JArr ws) \<Rightarrow> ws | _ \<Rightarrow> []) | _ \<Rightarrow> [])"

text \<open>A client environment whose bridge cannot contact Workspace.\<close>

definition unreachable_env :: env where
  "unreachable_env = \<lparr>bridge_tool = unreachable_bridge, json_loads = sample_loads\<rparr>"


section \<open>Properties\<close>

subsection \<open>Evaluation of strings and window predicates\<close>

lemma lower_simps: "lower [] = []" "lower (c # cs) = lower_char c # lower cs"
  by (simp_all add: lower_def)

lemmas window_eval = is_workspace_window_def is_small_dialog_def looks_like_alert_def
  workspace_names_def alert_keywords_def known_panels_def lower_simps lower_char_def

lemma info_dialog_facts:
  "is_workspace_window info_dialog" "is_small_dialog info_dialog"
  "\<not> looks_like_alert info_dialog" "win_name info_dialog = ''Info''"
  by (simp_all add: info_dialog_def window_eval)

lemma firefox_facts: "\<not> is_workspace_window firefox" "win_width firefox \<noteq> 0"
  by (simp_all add: firefox_def window_eval)

subsection \<open>The command proxy\<close>

text \<open>
  \<open>WorkspaceNotRunningError\<close> is raised inside the \<open>try\<close> whose last handler is
  \<open>except Exception\<close>, so it never leaves \<open>_run_command\<close>.
\<close>

lemma run_command_never_not_running:
  "run_command br args \<noteq> Inl (WorkspaceNotRunningError m)"
  by (simp add: run_command_def split: sum.splits exn.splits)

text \<open>
  C1. When stderr contains the sentinel \<open>Cannot contact Workspace\<close>, the specification asks for
  \<open>WorkspaceNotRunningError\<close> to reach the caller. On such a bridge the error raised
  inside the \<open>try\<close> is \<open>WorkspaceNotRunningError\<close>, but the one that leaves
  \<open>_run_command\<close> is \<open>CommandFailedError\<close>, with the first error's message embedded.
\<close>

theorem run_command_sentinel_leaves_as_command_failed:
  "run_command_try unreachable_bridge [''query'', ''--json''] =
     Inl (WorkspaceNotRunningError
       ''Workspace is not running or not responding. Start Workspace with: Workspace -d'')
   \<and> run_command unreachable_bridge [''query'', ''--json''] =
     Inl (CommandFailedError
       ''Failed to run uitest: Workspace is not running or not responding. Start Workspace with: Workspace -d'')"
  by (simp add: run_command_def run_command_try_def unreachable_bridge_def)

subsection \<open>The modal and focus guard\<close>

lemma dismiss_auto_always_True: "fst (dismiss_focus_stealer X ''auto'' w) = True"
  by (simp add: dismiss_focus_stealer_def dismiss_auto_def close_window_def Let_def
      split: prod.splits bool.splits)

text \<open>
  C2. In auto mode the three strategies run in the order Escape, click, close. In the
  session where another application's window keeps the focus, Escape (two attempts)
  reports no change of focus, the click is performed and the close key is sent while
  the focus stealer is still there after each of them; the specification asks for \<open>False\<close>, and
  \<open>dismiss_focus_stealer\<close> returns \<open>True\<close>.
\<close>

theorem dismiss_auto_reports_success_when_all_fail:
  "fst (dismiss_with_escape frozen_session 2 ()) = False
   \<and> fst (click_button_in_dialog frozen_session ''right'' ()) = True
   \<and> has_focus_stealer (get_focused_window frozen_session
         (snd (click_button_in_dialog frozen_session ''right'' ()))) None
   \<and> has_focus_stealer (get_focused_window frozen_session
         (snd (close_window frozen_session ()))) None
   \<and> dismiss_focus_stealer frozen_session ''auto'' () = (True, ())"
  by (simp add: dismiss_focus_stealer_def dismiss_auto_def dismiss_with_escape_def
      frozen_session_def click_button_in_dialog_def close_window_def has_focus_stealer_def
      numeral_2_eq_2 firefox_facts)

text \<open>
  C3, as stated, fails: with no expected title, the focused small Workspace dialog
  \<open>info_dialog\<close>, which has no alert keyword, is not reported, while the
  specification's wording reports it.
\<close>

theorem has_focus_stealer_spec_counterexample:
  "has_focus_stealer (Some info_dialog) None = False
   \<and> has_focus_stealer_spec (Some info_dialog) None = True"
  by (simp add: has_focus_stealer_def has_focus_stealer_spec_def info_dialog_facts
      matches_expected_def)

text \<open>
  C3, amended. \<open>has_focus_stealer\<close> returns false when no focused window can be
  determined, and when a non-empty expected title occurs (case-insensitively) in the
  focused window's name. Otherwise it returns true exactly when the focused window is
  not a Workspace window, or looks like an alert, or, only if a non-empty expected title
  was supplied, is a small dialog. So with no expected title a small Workspace dialog
  without an alert keyword is not reported.
\<close>

theorem has_focus_stealer_amended:
  "has_focus_stealer focused_opt expected =
     (case focused_opt of
        None \<Rightarrow> False
      | Some f \<Rightarrow>
          \<not> matches_expected expected f
          \<and> (\<not> is_workspace_window f \<or> looks_like_alert f
              \<or> (title_expected expected \<and> is_small_dialog f)))"
  by (auto simp: has_focus_stealer_def matches_expected_def title_expected_def
       split: option.splits list.splits)


text \<open>The amended statement at concrete windows, with and without an expected title.\<close>

theorem has_focus_stealer_amended_witness:
  "has_focus_stealer (Some info_dialog) None = False
   \<and> has_focus_stealer (Some info_dialog) (Some ''Workspace'') = True
   \<and> has_focus_stealer (Some info_dialog) (Some ''info'') = False
   \<and> has_focus_stealer (Some firefox) None = True
   \<and> has_focus_stealer None (Some ''Workspace'') = False"
  using has_focus_stealer_amended [of "Some info_dialog" None]
        has_focus_stealer_amended [of "Some info_dialog" "Some ''Workspace''"]
        has_focus_stealer_amended [of "Some info_dialog" "Some ''info''"]
        has_focus_stealer_amended [of "Some firefox" None]
        has_focus_stealer_amended [of None "Some ''Workspace''"]
  by (simp add: info_dialog_facts firefox_facts matches_expected_def title_expected_def
      lower_simps lower_char_def)

text \<open>
  C4, as stated, fails: a Workspace window named Info whose geometry is unknown (width
  and height 0) satisfies width below 500 and height below 400 and is in no panel list,
  yet \<open>detect_modal_dialog\<close> returns none, because \<open>is_small_dialog\<close> also requires a
  positive width.
\<close>

theorem detect_modal_dialog_spec_counterexample:
  "detect_modal_dialog (Some info_no_geometry) = None
   \<and> detect_modal_dialog_spec (Some info_no_geometry) = Some info_no_geometry"
  by (simp add: detect_modal_dialog_def detect_modal_dialog_spec_def info_no_geometry_def
      window_eval)

text \<open>
  C4, amended. \<open>detect_modal_dialog\<close> returns the focused window exactly when it looks
  like an alert (a keyword occurs in its lower-cased name or class), or when it is a
  Workspace window with 0 < width < 500 and height < 400 whose name contains none of
  Inspector, Finder, Preferences, Run; otherwise it returns none. A 300 by 200 window
  named Delete Confirmation is returned; a 1200 by 800 window named Finder whose class
  has no alert keyword yields none.
\<close>

theorem detect_modal_dialog_amended:
  "(detect_modal_dialog focused_opt = Some w \<longleftrightarrow>
      focused_opt = Some w
      \<and> (looks_like_alert w
          \<or> (is_workspace_window w \<and> 0 < win_width w \<and> win_width w < 500
              \<and> win_height w < 400
              \<and> \<not> list_ex (\<lambda>p. contains p (win_name w)) known_panels)))
   \<and> (detect_modal_dialog focused_opt = None \<or> detect_modal_dialog focused_opt = focused_opt)
   \<and> (win_name w = ''Delete Confirmation'' \<and> win_width w = 300 \<and> win_height w = 200
        \<longrightarrow> detect_modal_dialog (Some w) = Some w)
   \<and> (win_name w = ''Finder'' \<and> win_width w = 1200 \<and> win_height w = 800
        \<and> \<not> list_ex (\<lambda>kw. contains kw (lower (wm_class w))) alert_keywords
        \<longrightarrow> detect_modal_dialog (Some w) = None)"
  apply (intro conjI impI)
     apply (auto simp: detect_modal_dialog_def is_small_dialog_def split: option.splits)[1]
    apply (auto simp: detect_modal_dialog_def is_small_dialog_def split: option.splits)[1]
   apply (simp add: detect_modal_dialog_def looks_like_alert_def alert_keywords_def
      lower_simps lower_char_def)
  apply (simp add: detect_modal_dialog_def looks_like_alert_def is_small_dialog_def
      alert_keywords_def lower_simps lower_char_def)
  done

text \<open>The amended statement at the two windows of the specification's scenario.\<close>

theorem detect_modal_dialog_amended_witness:
  "detect_modal_dialog (Some delete_confirmation) = Some delete_confirmation
   \<and> detect_modal_dialog (Some finder_window) = None"
  using detect_modal_dialog_amended [of "Some delete_confirmation" delete_confirmation]
        detect_modal_dialog_amended [of "Some finder_window" finder_window]
  by (simp add: delete_confirmation_def finder_window_def alert_keywords_def lower_simps)


subsection \<open>The test runner\<close>

lemma run_loop_step:
  "run_loop stop ((n, t) # tests) results =
     (if test_failed t
      then (if stop then results @ [False] else run_loop stop tests (results @ [False]))
      else run_loop stop tests (results @ [True]))"
  by (cases t) (auto simp: test_failed_def split: exn.splits)

lemma executed_Nil: "executed stop [] = []"
  by (simp add: executed_def)

lemma executed_Cons:
  "executed stop ((n, t) # tests) =
     (if test_failed t \<and> stop then [(n, t)] else (n, t) # executed stop tests)"
  by (simp add: executed_def)

lemma run_loop_results:
  "run_loop stop tests results =
     results @ map (\<lambda>t. \<not> test_failed (snd t)) (executed stop tests)"
proof (induction tests arbitrary: results)
  case Nil
  show ?case by (simp add: executed_Nil)
next
  case (Cons a tests)
  obtain n t where a: "a = (n, t)" by (cases a)
  show ?case
    unfolding a run_loop_step executed_Cons
    using Cons.IH[of "results @ [False]"] Cons.IH[of "results @ [True]"]
    by (cases stop) simp_all
qed

lemma run_tests_status:
  "run_tests tests stop =
     (if list_all (\<lambda>t. \<not> test_failed (snd t)) (executed stop tests) then 0 else 1)"
  by (cases tests) (simp_all add: run_tests_def run_loop_results executed_Nil list_all_iff)

lemma executed_has_failure:
  "list_ex (\<lambda>t. test_failed (snd t)) (executed stop tests) =
   list_ex (\<lambda>t. test_failed (snd t)) tests"
proof (induction tests)
  case Nil
  show ?case by (simp add: executed_Nil)
next
  case (Cons a tests)
  obtain n t where a: "a = (n, t)" by (cases a)
  show ?case unfolding a executed_Cons using Cons.IH by simp
qed

lemma run_tests_failure_anywhere:
  "run_tests tests stop = (if list_ex (\<lambda>t. test_failed (snd t)) tests then 1 else 0)"
proof -
  have "list_all (\<lambda>t. \<not> test_failed (snd t)) (executed stop tests) =
        (\<not> list_ex (\<lambda>t. test_failed (snd t)) (executed stop tests))"
    by (simp add: list_all_iff list_ex_iff)
  then show ?thesis
    by (simp add: run_tests_status executed_has_failure)
qed

text \<open>
  C8. The results recorded by the loop are, test by test, whether each executed test
  passed, where a test fails exactly when it returns exactly \<open>False\<close> or raises; the
  exit status is 0 when every executed test passed and 1 otherwise, also when
  stop-on-failure ends the run early. A test that returns \<open>False\<close> and one that raises
  give the same exit status, 1, wherever they stand in the sequence.
\<close>

theorem run_tests_exit_status:
  "run_loop stop tests [] = map (\<lambda>t. \<not> test_failed (snd t)) (executed stop tests)
   \<and> run_tests tests stop =
       (if list_all (\<lambda>t. \<not> test_failed (snd t)) (executed stop tests) then 0 else 1)
   \<and> test_failed (Returns (JBool False)) \<and> test_failed (Raises e)
   \<and> (test_failed (Returns v) \<longleftrightarrow> v = JBool False)
   \<and> run_tests (before @ (n, Returns (JBool False)) # after) stop = 1
   \<and> run_tests (before @ (n, Raises e) # after) stop = 1"
proof (intro conjI)
  show "run_loop stop tests [] = map (\<lambda>t. \<not> test_failed (snd t)) (executed stop tests)"
    by (simp add: run_loop_results)
  show "run_tests tests stop =
       (if list_all (\<lambda>t. \<not> test_failed (snd t)) (executed stop tests) then 0 else 1)"
    by (rule run_tests_status)
  show "test_failed (Returns (JBool False))" "test_failed (Raises e)"
    "test_failed (Returns v) \<longleftrightarrow> v = JBool False"
    by (simp_all add: test_failed_def)
  then show "run_tests (before @ (n, Returns (JBool False)) # after) stop = 1"
    "run_tests (before @ (n, Raises e) # after) stop = 1"
    by (simp_all add: run_tests_failure_anywhere)
qed

theorem run_tests_exit_status_witness:
  "run_loop True sample_tests [] = [True, False]
   \<and> run_tests sample_tests True = 1
   \<and> run_loop False sample_tests [] = [True, False, True]
   \<and> run_tests sample_tests False = 1
   \<and> run_tests [(''window exists'', Returns (JBool True)), (''cleanup'', Returns JNull)] False = 0"
  using run_tests_exit_status [of True sample_tests]
        run_tests_exit_status [of False sample_tests]
        run_tests_exit_status
          [of False "[(''window exists'', Returns (JBool True)), (''cleanup'', Returns JNull)]"]
  by (simp add: sample_tests_def executed_def test_failed_def)

subsection \<open>Smoothed mouse movement\<close>

lemma run_mousemove_ok:
  "\<forall>n. mousemove_raises env n = None \<Longrightarrow>
   run_mousemove env x y emitted = Inr (emitted @ [(x, y)])"
  by (simp add: run_mousemove_def)

lemma bezier_loop_step_ok:
  assumes "\<forall>n. mousemove_raises env n = None"
  shows "\<exists>p. bezier_loop env cur ctl tgt steps (i # is) emitted =
              bezier_loop env cur ctl tgt steps is (emitted @ [p])"
  unfolding bezier_loop.simps Let_def run_mousemove_ok[OF assms] sum.case
  by (rule exI) (rule refl)

lemma bezier_loop_ok:
  assumes "\<forall>n. mousemove_raises env n = None"
  shows "\<exists>ps. bezier_loop env cur ctl tgt steps is emitted = Inr (emitted @ ps)
              \<and> length ps = length is"
proof (induction "is" arbitrary: emitted)
  case Nil
  show ?case by simp
next
  case (Cons i "is")
  obtain p where p: "bezier_loop env cur ctl tgt steps (i # is) emitted =
                     bezier_loop env cur ctl tgt steps is (emitted @ [p])"
    using bezier_loop_step_ok[OF assms] by blast
  obtain ps where ps:
    "bezier_loop env cur ctl tgt steps is (emitted @ [p]) = Inr ((emitted @ [p]) @ ps)"
    "length ps = length is"
    using Cons.IH[of "emitted @ [p]"] by blast
  show ?case
    unfolding p ps(1) using ps(2) by (intro exI[of _ "p # ps"]) simp
qed

text \<open>
  C5. When \<open>_get_mouse_position\<close> returns a position and no xdotool invocation fails
  (and the speed, if one is given, is not zero), \<open>move_mouse_smoothly\<close> returns, for
  every start position, target, variation and pair of random values; the last position
  it gives to xdotool is exactly the target. It emits either the target alone (distance
  below 5) or between 5 and 30 curve points followed by the target.
\<close>

theorem move_mouse_smoothly_ends_at_target:
  assumes pos: "mouse_position env = Inr (current_x, current_y)"
      and ok: "\<forall>n. mousemove_raises env n = None"
      and speed: "speed_opt \<noteq> Some 0"
  shows "\<exists>emitted.
           move_mouse_smoothly env target_x target_y speed_opt variation r1 r2 = Inr emitted
           \<and> emitted \<noteq> [] \<and> last emitted = (target_x, target_y)
           \<and> (length emitted = 1 \<or> (6 \<le> length emitted \<and> length emitted \<le> 31))"
proof -
  define dx where "dx = target_x - current_x"
  define dy where "dy = target_y - current_y"
  define distance where "distance = sqrt (real_of_int (dx * dx + dy * dy))"
  define sp where "sp = (case speed_opt of None \<Rightarrow> mouse_speed | Some s \<Rightarrow> s)"
  define steps where "steps = max 5 (min 30 (py_int (distance / 20)))"
  define ctl where
    "ctl = (real_of_int (current_x + target_x) / 2 + (- real_of_int dy * variation * r1),
            real_of_int (current_y + target_y) / 2 + real_of_int dx * variation * r2)"
  have unfolded:
    "move_mouse_smoothly env target_x target_y speed_opt variation r1 r2 =
      (if distance < 5 then run_mousemove env target_x target_y []
       else if sp = 0 then Inl (ZeroDivisionError ''float division by zero'')
       else (case bezier_loop env (current_x, current_y) ctl (target_x, target_y) steps
                    [1..steps] [] of
               Inl e \<Rightarrow> Inl e
             | Inr emitted \<Rightarrow> run_mousemove env target_x target_y emitted))"
    unfolding move_mouse_smoothly_def pos Let_def ctl_def steps_def sp_def distance_def
      dx_def dy_def
    by (simp only: sum.case prod.case)
  have sp0: "sp \<noteq> 0"
    using speed by (cases speed_opt) (simp_all add: sp_def mouse_speed_def)
  show ?thesis
  proof (cases "distance < 5")
    case True
    then have "move_mouse_smoothly env target_x target_y speed_opt variation r1 r2 =
               Inr [(target_x, target_y)]"
      unfolding unfolded using run_mousemove_ok[OF ok, of target_x target_y "[]"] by simp
    then show ?thesis by simp
  next
    case False
    have st: "5 \<le> steps" "steps \<le> 30" by (simp_all add: steps_def)
    obtain ps where ps:
      "bezier_loop env (current_x, current_y) ctl (target_x, target_y) steps [1..steps] [] =
         Inr ([] @ ps)"
      "length ps = length [1..steps]"
      using bezier_loop_ok[OF ok] by blast
    have len: "length ps = nat steps" using ps(2) by simp
    have "move_mouse_smoothly env target_x target_y speed_opt variation r1 r2 =
          Inr (ps @ [(target_x, target_y)])"
      unfolding unfolded
      using False sp0 ps(1) run_mousemove_ok[OF ok, of target_x target_y ps]
      by simp
    then show ?thesis using len st by auto
  qed
qed

theorem move_mouse_smoothly_ends_at_target_witness:
  "\<exists>emitted. move_mouse_smoothly calm_xdotool 300 400 None 0.1 0.5 (- 0.25) = Inr emitted
           \<and> emitted \<noteq> [] \<and> last emitted = (300, 400)
           \<and> (length emitted = 1 \<or> (6 \<le> length emitted \<and> length emitted \<le> 31))"
  using move_mouse_smoothly_ends_at_target [of calm_xdotool 0 0 None 300 400 "0.1" "0.5" "- 0.25"]
  by (simp add: calm_xdotool_def)


subsection \<open>The JSON extractor\<close>

lemma split_nl_nonempty: "split_nl s \<noteq> []"
  by (induction s) (auto split: list.splits)

lemma join_nl_Cons: "ls \<noteq> [] \<Longrightarrow> join_nl (l # ls) = l @ CHR 0x0A # join_nl ls"
  by (cases ls) simp_all

lemma join_split_nl: "join_nl (split_nl s) = s"
proof (induction s)
  case Nil
  show ?case by simp
next
  case (Cons c cs)
  obtain l ls where sp: "split_nl cs = l # ls"
    using split_nl_nonempty[of cs] by (cases "split_nl cs") auto
  show ?case
  proof (cases "c = CHR 0x0A")
    case True
    then show ?thesis using Cons.IH split_nl_nonempty[of cs] by (simp add: join_nl_Cons)
  next
    case False
    then show ?thesis using Cons.IH sp by (cases ls) simp_all
  qed
qed

lemma split_nl_no_newline: "l \<in> set (split_nl s) \<Longrightarrow> CHR 0x0A \<notin> set l"
proof (induction s arbitrary: l)
  case Nil
  then show ?case by simp
next
  case (Cons c cs)
  obtain l' ls where sp: "split_nl cs = l' # ls"
    using split_nl_nonempty[of cs] by (cases "split_nl cs") auto
  show ?case
  proof (cases "c = CHR 0x0A")
    case True
    then show ?thesis using Cons by auto
  next
    case False
    then have "l = c # l' \<or> l \<in> set ls" using Cons.prems sp by simp
    then show ?thesis using Cons.IH[of l'] Cons.IH[of l] sp False by auto
  qed
qed

lemma split_nl_line:
  "CHR 0x0A \<notin> set l \<Longrightarrow> split_nl (l @ CHR 0x0A # rest) = l # split_nl rest"
  by (induction l) auto

lemma split_nl_preamble:
  "list_all (\<lambda>l. CHR 0x0A \<notin> set l \<and> \<not> json_line l) pre \<Longrightarrow>
   split_nl (concat (map (\<lambda>l. l @ [CHR 0x0A]) pre) @ doc) = pre @ split_nl doc"
  by (induction pre) (simp_all add: split_nl_line)

lemma find_json_start_skip:
  "list_all (\<lambda>l. CHR 0x0A \<notin> set l \<and> \<not> json_line l) pre \<Longrightarrow>
   find_json_start i (pre @ ls) = find_json_start (i + length pre) ls"
  by (induction pre arbitrary: i) simp_all

lemma find_json_start_hd:
  "ls \<noteq> [] \<Longrightarrow> json_line (hd ls) \<Longrightarrow> find_json_start i ls = Some i"
  by (cases ls) simp_all

lemma find_json_start_None:
  "find_json_start i ls = None \<longleftrightarrow> \<not> list_ex json_line ls"
  by (induction ls arbitrary: i) simp_all

lemma extract_json_none:
  "\<not> list_ex json_line (split_nl out) \<Longrightarrow>
   extract_json E c out =
     (Inl (UITestException (''No JSON found in output: '' @ take 200 out)), c)"
  using find_json_start_None[of 0 "split_nl out"]
  by (simp add: extract_json_def Let_def)

lemma extract_json_preamble:
  assumes "list_all (\<lambda>l. CHR 0x0A \<notin> set l \<and> \<not> json_line l) pre"
      and "json_line (hd (split_nl doc))"
  shows "extract_json E c (concat (map (\<lambda>l. l @ [CHR 0x0A]) pre) @ doc) =
     (case json_loads E doc of
        Inr data \<Rightarrow> (Inr data, c\<lparr>last_json_response := Some data\<rparr>)
      | Inl e \<Rightarrow> (Inl (UITestException (''Failed to parse JSON response: '' @ e)), c))"
proof -
  have "find_json_start 0 (pre @ split_nl doc) = Some (length pre)"
    using find_json_start_skip[OF assms(1), of 0 "split_nl doc"]
          find_json_start_hd[OF split_nl_nonempty assms(2), of "length pre"]
    by simp
  then show ?thesis
    by (simp add: extract_json_def Let_def split_nl_preamble[OF assms(1)] join_split_nl)
qed

lemma join_nl_preamble:
  "rest \<noteq> [] \<Longrightarrow>
   join_nl (pre @ rest) = concat (map (\<lambda>l. l @ [CHR 0x0A]) pre) @ join_nl rest"
  by (induction pre) (simp_all add: join_nl_Cons)

lemma split_join_nl:
  "ls \<noteq> [] \<Longrightarrow> \<forall>l\<in>set ls. CHR 0x0A \<notin> set l \<Longrightarrow> split_nl (join_nl ls) = ls"
proof (induction ls)
  case Nil
  then show ?case by simp
next
  case (Cons l ls)
  show ?case
  proof (cases ls)
    case Nil
    have "split_nl l = [l]" using Cons.prems(2)
      by (induction l) (auto split: list.splits)
    then show ?thesis using Nil by simp
  next
    case (Cons a as)
    then show ?thesis using Cons.IH Cons.prems \<open>ls = a # as\<close>
      by (simp add: split_nl_line)
  qed
qed

lemma output_decomposition:
  assumes "list_ex json_line (split_nl out)"
  shows "\<exists>pre doc. list_all (\<lambda>l. CHR 0x0A \<notin> set l \<and> \<not> json_line l) pre
           \<and> json_line (hd (split_nl doc))
           \<and> out = concat (map (\<lambda>l. l @ [CHR 0x0A]) pre) @ doc"
proof -
  let ?ls = "split_nl out"
  let ?pre = "takeWhile (\<lambda>l. \<not> json_line l) ?ls"
  let ?rest = "dropWhile (\<lambda>l. \<not> json_line l) ?ls"
  have rest: "?rest \<noteq> []" using assms by (auto simp: list_ex_iff)
  have hd: "json_line (hd ?rest)" using hd_dropWhile[OF rest] by simp
  have nonl: "\<forall>l\<in>set ?rest. CHR 0x0A \<notin> set l"
    using split_nl_no_newline[where s = out] set_dropWhileD by fastforce
  have pre: "list_all (\<lambda>l. CHR 0x0A \<notin> set l \<and> \<not> json_line l) ?pre"
    using split_nl_no_newline[where s = out] set_takeWhileD[of _ "\<lambda>l. \<not> json_line l" ?ls]
    by (auto simp: list_all_iff)
  have "out = join_nl (?pre @ ?rest)" by (simp add: join_split_nl)
  also have "\<dots> = concat (map (\<lambda>l. l @ [CHR 0x0A]) ?pre) @ join_nl ?rest"
    by (rule join_nl_preamble[OF rest])
  finally have out: "out = concat (map (\<lambda>l. l @ [CHR 0x0A]) ?pre) @ join_nl ?rest" .
  have "json_line (hd (split_nl (join_nl ?rest)))"
    using split_join_nl[OF rest nonl] hd by simp
  then show ?thesis using pre out by blast
qed

text \<open>
  C6. When no line of the output, trimmed, starts with an opening brace, \<open>_extract_json\<close>
  raises the no-JSON error, and only then. Otherwise the output is a preamble of whole
  lines, none of them starting with a brace, followed by a document whose first line
  does; for every such preamble, whatever its length, the result is what \<open>json.loads\<close>
  gives on the document itself: the parsed value unchanged (also cached as the last
  response), or the parse error exactly when \<open>json.loads\<close> fails.
\<close>

theorem extract_json_contract:
  "(\<not> list_ex json_line (split_nl out) \<longrightarrow>
      extract_json E c out =
        (Inl (UITestException (''No JSON found in output: '' @ take 200 out)), c))
   \<and> (list_ex json_line (split_nl out) \<longrightarrow>
        (\<forall>m. fst (extract_json E c out) \<noteq> Inl (UITestException (''No JSON found in output: '' @ m)))
        \<and> (\<exists>pre doc. list_all (\<lambda>l. CHR 0x0A \<notin> set l \<and> \<not> json_line l) pre
              \<and> json_line (hd (split_nl doc))
              \<and> out = concat (map (\<lambda>l. l @ [CHR 0x0A]) pre) @ doc))
   \<and> (list_all (\<lambda>l. CHR 0x0A \<notin> set l \<and> \<not> json_line l) pre \<and> json_line (hd (split_nl doc)) \<longrightarrow>
        extract_json E c (concat (map (\<lambda>l. l @ [CHR 0x0A]) pre) @ doc) =
          (case json_loads E doc of
             Inr data \<Rightarrow> (Inr data, c\<lparr>last_json_response := Some data\<rparr>)
           | Inl e \<Rightarrow> (Inl (UITestException (''Failed to parse JSON response: '' @ e)), c)))"
proof (intro conjI impI allI)
  assume "\<not> list_ex json_line (split_nl out)"
  then show "extract_json E c out =
        (Inl (UITestException (''No JSON found in output: '' @ take 200 out)), c)"
    by (rule extract_json_none)
next
  assume ex: "list_ex json_line (split_nl out)"
  then show "\<exists>pre doc. list_all (\<lambda>l. CHR 0x0A \<notin> set l \<and> \<not> json_line l) pre
              \<and> json_line (hd (split_nl doc))
              \<and> out = concat (map (\<lambda>l. l @ [CHR 0x0A]) pre) @ doc"
    by (rule output_decomposition)
  fix m
  from ex obtain k where "find_json_start 0 (split_nl out) = Some k"
    using find_json_start_None[of 0 "split_nl out"] by (cases "find_json_start 0 (split_nl out)") auto
  then show "fst (extract_json E c out) \<noteq> Inl (UITestException (''No JSON found in output: '' @ m))"
    by (simp add: extract_json_def Let_def split: sum.splits)
next
  assume "list_all (\<lambda>l. CHR 0x0A \<notin> set l \<and> \<not> json_line l) pre \<and> json_line (hd (split_nl doc))"
  then show "extract_json E c (concat (map (\<lambda>l. l @ [CHR 0x0A]) pre) @ doc) =
          (case json_loads E doc of
             Inr data \<Rightarrow> (Inr data, c\<lparr>last_json_response := Some data\<rparr>)
           | Inl e \<Rightarrow> (Inl (UITestException (''Failed to parse JSON response: '' @ e)), c))"
    using extract_json_preamble by blast
qed

lemma is_space_brace: "\<not> is_space (CHR ''{'')"
  by (simp add: is_space_def)

lemma json_line_brace: "json_line (CHR ''{'' # l)"
  by (simp add: json_line_def strip_def is_space_brace dropWhile_append3)

lemma hd_split_nl_Cons: "c \<noteq> CHR 0x0A \<Longrightarrow> hd (split_nl (c # cs)) = c # hd (split_nl cs)"
  using split_nl_nonempty[of cs] by (cases "split_nl cs") simp_all

lemma json_line_document: "json_line (hd (split_nl (CHR ''{'' # cs)))"
proof -
  have "hd (split_nl (CHR ''{'' # cs)) = CHR ''{'' # hd (split_nl cs)"
    by (rule hd_split_nl_Cons) simp
  then show ?thesis by (simp only: json_line_brace)
qed

lemma sample_json_documents:
  "json_line (hd (split_nl sample_ui_json))" "json_line (hd (split_nl sample_menu_json))"
  unfolding sample_ui_json_def sample_menu_json_def
  by (rule json_line_document)+

lemma sample_json_distinct: "sample_ui_json \<noteq> sample_menu_json"
  by (simp add: sample_ui_json_def sample_menu_json_def)

lemma preamble_lines:
  "list_all (\<lambda>l. CHR 0x0A \<notin> set l \<and> \<not> json_line l) [''Querying Workspace...'']"
  "list_all (\<lambda>l. CHR 0x0A \<notin> set l \<and> \<not> json_line l) [''Listing menus...'']"
  by (simp_all add: json_line_def strip_def is_space_def)

theorem extract_json_contract_witness:
  "extract_json sample_env new_client (''Querying Workspace...'' @ [CHR 0x0A] @ sample_ui_json) =
     (Inr sample_ui_state, new_client\<lparr>last_json_response := Some sample_ui_state\<rparr>)
   \<and> extract_json sample_env new_client ''Error: no windows'' =
     (Inl (UITestException ''No JSON found in output: Error: no windows''), new_client)
   \<and> extract_json sample_env new_client (''Listing menus...'' @ [CHR 0x0A] @ ''{ not json'') =
     (Inl (UITestException
        ''Failed to parse JSON response: Expecting value: line 1 column 1 (char 0)''), new_client)"
  using extract_json_contract
          [of "''Error: no windows''" sample_env new_client "[''Querying Workspace...'']"
              sample_ui_json]
        extract_json_contract
          [of "''Error: no windows''" sample_env new_client "[''Listing menus...'']"
              "''{ not json''"]
        preamble_lines sample_json_documents(1) json_line_document [of "'' not json''"]
  by (simp add: sample_env_def sample_loads_def sample_ui_json_def sample_menu_json_def
      json_line_def strip_def is_space_def)


subsection \<open>The sample bridge\<close>

lemma sample_query:
  "query_ui_state sample_env new_client =
     (Inr sample_ui_state, new_client\<lparr>last_json_response := Some sample_ui_state\<rparr>)"
proof -
  have "extract_json sample_env new_client
          (concat (map (\<lambda>l. l @ [CHR 0x0A]) [''Querying Workspace...'']) @ sample_ui_json) =
        (Inr sample_ui_state, new_client\<lparr>last_json_response := Some sample_ui_state\<rparr>)"
    unfolding extract_json_preamble[OF preamble_lines(1) sample_json_documents(1)]
    by (simp add: sample_env_def sample_loads_def)
  then show ?thesis
    by (simp add: query_ui_state_def run_command_def run_command_try_def sample_env_def
        sample_bridge_def)
qed

lemma sample_menus:
  "get_menu_state sample_env new_client =
     (Inr sample_menu_state, new_client\<lparr>last_json_response := Some sample_menu_state\<rparr>)"
proof -
  have "extract_json sample_env new_client
          (concat (map (\<lambda>l. l @ [CHR 0x0A]) [''Listing menus...'']) @ sample_menu_json) =
        (Inr sample_menu_state, new_client\<lparr>last_json_response := Some sample_menu_state\<rparr>)"
    unfolding extract_json_preamble[OF preamble_lines(2) sample_json_documents(2)]
    using sample_json_distinct by (simp add: sample_env_def sample_loads_def)
  then show ?thesis
    by (simp add: get_menu_state_def run_command_def run_command_try_def sample_env_def
        sample_bridge_def)
qed

lemma sample_ui_windows: "ui_windows sample_env new_client = Some sample_windows"
  by (simp add: ui_windows_def sample_query sample_ui_state_def dict_get_default_def
      sample_windows_def)

subsection \<open>Window lookup\<close>

lemma window_loop_True:
  "window_loop title ws = Inr True \<Longrightarrow> list_ex (window_titled title) ws"
proof (induction ws)
  case Nil
  then show ?case by simp
next
  case (Cons w ws)
  show ?case
  proof (cases w)
    case (JObj kvs)
    then show ?thesis using Cons by (auto simp: window_titled_def split: if_splits)
  qed (use Cons in auto)
qed

lemma window_loop_dict_step:
  "window_loop title (JObj kvs # ws) =
     (if window_titled title (JObj kvs) then Inr True else window_loop title ws)"
  by (simp add: window_titled_def)

lemma window_loop_dicts:
  "list_all is_dict ws \<Longrightarrow> window_loop title ws = Inr (list_ex (window_titled title) ws)"
proof (induction ws)
  case Nil
  then show ?case by simp
next
  case (Cons w ws)
  then obtain kvs where w: "w = JObj kvs" by (cases w) (auto simp: is_dict_def)
  show ?case using Cons unfolding w window_loop_dict_step by simp
qed

lemma window_exists_by_snapshot:
  "fst (window_exists E c title) =
     (case ui_windows E c of
        None \<Rightarrow> False
      | Some ws \<Rightarrow> (case window_loop title ws of Inl e \<Rightarrow> False | Inr b \<Rightarrow> b))"
  by (cases "query_ui_state E c")
     (simp add: window_exists_def window_exists_try_def ui_windows_def
        split: sum.splits)

text \<open>
  C9. \<open>window_exists\<close> returns a boolean and raises nothing: every exception of the
  query, the extraction or the loop ends in the handler that returns \<open>False\<close>. When the
  lower layers fail, so that no snapshot is obtained, it returns \<open>False\<close>; when no window
  of the snapshot has the title under \<open>title\<close> or \<open>windowTitle\<close>, it returns
  \<open>False\<close>; and on a snapshot whose windows are all dicts it returns true exactly when
  some window has exactly this title under one of the two keys.
\<close>

theorem window_exists_absent_title:
  "(ui_windows E c = None \<longrightarrow> fst (window_exists E c title) = False)
   \<and> (fst (query_ui_state E c) = Inl e \<longrightarrow> fst (window_exists E c title) = False)
   \<and> (ui_windows E c = Some ws \<and> \<not> list_ex (window_titled title) ws \<longrightarrow>
        fst (window_exists E c title) = False)
   \<and> (ui_windows E c = Some ws \<and> list_all is_dict ws \<longrightarrow>
        fst (window_exists E c title) = list_ex (window_titled title) ws)"
proof (intro conjI impI)
  show "fst (window_exists E c title) = False" if "ui_windows E c = None"
    using that by (simp add: window_exists_by_snapshot)
  show "fst (window_exists E c title) = False" if "fst (query_ui_state E c) = Inl e"
    using that by (simp add: window_exists_by_snapshot ui_windows_def)
  show "fst (window_exists E c title) = False"
    if "ui_windows E c = Some ws \<and> \<not> list_ex (window_titled title) ws"
    using that window_loop_True[of title ws]
    by (auto simp: window_exists_by_snapshot split: sum.splits)
  show "fst (window_exists E c title) = list_ex (window_titled title) ws"
    if "ui_windows E c = Some ws \<and> list_all is_dict ws"
    using that by (simp add: window_exists_by_snapshot window_loop_dicts)
qed

lemma sample_windows_eval:
  "list_all is_dict sample_windows"
  "list_ex (window_titled ''Workspace'') sample_windows"
  "list_ex (window_titled ''Info'') sample_windows"
  "\<not> list_ex (window_titled ''About'') sample_windows"
  "\<not> list_ex (window_titled ''workspace'') sample_windows"
  by (simp_all add: sample_windows_def sample_ui_state_def is_dict_def window_titled_def)

theorem window_exists_absent_title_witness:
  "fst (window_exists sample_env new_client ''About'') = False
   \<and> fst (window_exists sample_env new_client ''workspace'') = False
   \<and> fst (window_exists sample_env new_client ''Workspace'') = True
   \<and> fst (window_exists sample_env new_client ''Info'') = True
   \<and> fst (window_exists unreachable_env new_client ''Workspace'') = False"
proof -
  have down: "fst (query_ui_state unreachable_env new_client) =
          Inl (CommandFailedError
       ''Failed to run uitest: Workspace is not running or not responding. Start Workspace with: Workspace -d'')"
    by (simp add: query_ui_state_def run_command_def run_command_try_def
        unreachable_bridge_def unreachable_env_def)
  show ?thesis
    using window_exists_absent_title [of sample_env new_client "''About''" _ sample_windows]
          window_exists_absent_title [of sample_env new_client "''workspace''" _ sample_windows]
          window_exists_absent_title [of sample_env new_client "''Workspace''" _ sample_windows]
          window_exists_absent_title [of sample_env new_client "''Info''" _ sample_windows]
          window_exists_absent_title [of unreachable_env new_client "''Workspace''"] down
    by (simp add: sample_ui_windows sample_windows_eval)
qed


subsection \<open>Menu items\<close>

lemma find_menu_found:
  assumes "list_all (\<lambda>m. is_dict m \<and> \<not> has_title t m) mpre"
      and "map_of mkv ''title'' = Some (JStr t)"
  shows "find_menu t (mpre @ JObj mkv # mpost) = dict_get_default (JObj mkv) ''items'' (JArr [])"
  using assms(1)
proof (induction mpre)
  case Nil
  show ?case using assms(2) by simp
next
  case (Cons m mpre)
  then obtain kvs where m: "m = JObj kvs" by (cases m) (auto simp: is_dict_def)
  show ?case using Cons unfolding m by (simp add: has_title_def)
qed

lemma find_item_found:
  assumes "list_all (\<lambda>m. is_dict m \<and> \<not> has_title t m) ipre"
      and "map_of ikv ''title'' = Some (JStr t)"
  shows "find_item mt t (ipre @ JObj ikv # ipost) =
           dict_get_default (JObj ikv) ''enabled'' (JBool False)"
  using assms(1)
proof (induction ipre)
  case Nil
  show ?case using assms(2) by simp
next
  case (Cons m ipre)
  then obtain kvs where m: "m = JObj kvs" by (cases m) (auto simp: is_dict_def)
  show ?case using Cons unfolding m by (simp add: has_title_def)
qed

lemma find_item_absent:
  "list_all (\<lambda>m. is_dict m \<and> \<not> has_title t m) items \<Longrightarrow>
   find_item mt t items = Inl (UITestException (''Menu item not found: '' @ mt @ '' > '' @ t))"
proof (induction items)
  case Nil
  show ?case by simp
next
  case (Cons m items)
  then obtain kvs where m: "m = JObj kvs" by (cases m) (auto simp: is_dict_def)
  show ?case using Cons unfolding m by (simp add: has_title_def)
qed

lemma get_menu_items_found:
  assumes "fst (get_menu_state E c) = Inr (JObj skv)"
      and "map_of skv ''menus'' = Some (JArr (mpre @ JObj mkv # mpost))"
      and "list_all (\<lambda>m. is_dict m \<and> \<not> has_title menu_title m) mpre"
      and "map_of mkv ''title'' = Some (JStr menu_title)"
      and "map_of mkv ''items'' = Some (JArr items)"
  shows "fst (get_menu_items E c menu_title) = Inr (JArr items)"
proof -
  obtain c' where st: "get_menu_state E c = (Inr (JObj skv), c')"
    using assms(1) by (cases "get_menu_state E c") simp
  show ?thesis
    by (simp add: get_menu_items_def st dict_get_default_def assms(2,5)
        find_menu_found[OF assms(3,4)])
qed

lemma is_menu_item_enabled_via_items:
  assumes "fst (get_menu_items E c menu_title) = Inr (JArr items)"
  shows "fst (is_menu_item_enabled E c menu_title item_title) =
           find_item menu_title item_title items"
proof -
  obtain c' where st: "get_menu_items E c menu_title = (Inr (JArr items), c')"
    using assms by (cases "get_menu_items E c menu_title") simp
  show ?thesis by (simp add: is_menu_item_enabled_def st)
qed

text \<open>
  C7. Given a menu state (a dict whose \<open>menus\<close> is a list) in which the first menu
  titled \<open>menu_title\<close> has the list \<open>items\<close> of dicts as its items: when no item has the
  title \<open>item_title\<close>, \<open>is_menu_item_enabled\<close> raises the exception with the message
  \<open>Menu item not found\<close>; when an item has the title, the call does not raise and
  returns the \<open>enabled\<close> flag of the first such item, \<open>False\<close> for a disabled and
  \<open>True\<close> for an enabled one.
\<close>

theorem is_menu_item_enabled_contract:
  assumes "fst (get_menu_state E c) = Inr (JObj skv)"
      and "map_of skv ''menus'' = Some (JArr (mpre @ JObj mkv # mpost))"
      and "list_all (\<lambda>m. is_dict m \<and> \<not> has_title menu_title m) mpre"
      and "map_of mkv ''title'' = Some (JStr menu_title)"
      and "map_of mkv ''items'' = Some (JArr items)"
  shows "(list_all (\<lambda>i. is_dict i \<and> \<not> has_title item_title i) items \<longrightarrow>
            fst (is_menu_item_enabled E c menu_title item_title) =
              Inl (UITestException
                     (''Menu item not found: '' @ menu_title @ '' > '' @ item_title)))
       \<and> (items = ipre @ JObj ikv # ipost
            \<and> list_all (\<lambda>i. is_dict i \<and> \<not> has_title item_title i) ipre
            \<and> map_of ikv ''title'' = Some (JStr item_title)
            \<and> map_of ikv ''enabled'' = Some (JBool b) \<longrightarrow>
            fst (is_menu_item_enabled E c menu_title item_title) = Inr (JBool b))"
  using is_menu_item_enabled_via_items[OF get_menu_items_found[OF assms], of item_title]
  by (auto simp: find_item_absent find_item_found dict_get_default_def)

lemma sample_menu_shape:
  "fst (get_menu_state sample_env new_client) =
     Inr (JObj [(''success'', JBool True),
           (''menus'', JArr [
              JObj [(''title'', JStr ''Info''), (''enabled'', JBool True), (''items'', JArr [])],
              JObj [(''title'', JStr ''File''), (''enabled'', JBool True),
                    (''items'', JArr file_items)]])])"
  by (simp add: sample_menus sample_menu_state_def)

theorem is_menu_item_enabled_contract_witness:
  "fst (is_menu_item_enabled sample_env new_client ''File'' ''New Folder'') = Inr (JBool False)
   \<and> fst (is_menu_item_enabled sample_env new_client ''File'' ''Find'') = Inr (JBool True)
   \<and> fst (is_menu_item_enabled sample_env new_client ''File'' ''Print'') =
       Inl (UITestException ''Menu item not found: File > Print'')"
proof -
  note c = is_menu_item_enabled_contract
    [OF sample_menu_shape, where menu_title = "''File''" and items = file_items
       and mpre = "[JObj [(''title'', JStr ''Info''), (''enabled'', JBool True),
                          (''items'', JArr [])]]"
       and mkv = "[(''title'', JStr ''File''), (''enabled'', JBool True),
                   (''items'', JArr file_items)]"
       and mpost = "[]"]
  have pre: "list_all (\<lambda>m. is_dict m \<and> \<not> has_title ''File'' m)
               [JObj [(''title'', JStr ''Info''), (''enabled'', JBool True),
                      (''items'', JArr [])]]"
    by (simp add: is_dict_def has_title_def)
  have 1: "fst (is_menu_item_enabled sample_env new_client ''File'' ''New Folder'') =
             Inr (JBool False)"
    using c [where item_title = "''New Folder''" and ipre = "[]"
               and ikv = "[(''title'', JStr ''New Folder''), (''enabled'', JBool False)]"
               and ipost = "tl file_items" and b = False] pre
    by (simp add: file_items_def)
  have 2: "fst (is_menu_item_enabled sample_env new_client ''File'' ''Find'') =
             Inr (JBool True)"
    using c [where item_title = "''Find''" and ipre = "butlast file_items"
               and ikv = "[(''title'', JStr ''Find''), (''enabled'', JBool True)]"
               and ipost = "[]" and b = True] pre
    by (simp add: file_items_def is_dict_def has_title_def)
  have 3: "fst (is_menu_item_enabled sample_env new_client ''File'' ''Print'') =
             Inl (UITestException ''Menu item not found: File > Print'')"
    using c [where item_title = "''Print''"] pre
    by (simp add: file_items_def is_dict_def has_title_def)
  show ?thesis using 1 2 3 by simp
qed


subsection \<open>Text search and element counting\<close>

lemma search_finds_children_node:
  "search_in_tree cs q v = Inr True \<longrightarrow> list_ex (text_matches cs q) (children_nodes v)"
  "search_in_list cs q xs = Inr True \<longrightarrow> list_ex (text_matches cs q) (children_nodes_list xs)"
proof (induction v and xs rule: children_nodes_children_nodes_list.induct)
  case (1 kvs)
  show ?case
  proof (cases "text_check cs q kvs = Inr True")
    case True
    then show ?thesis by (simp add: text_matches_def)
  next
    case False
    show ?thesis
    proof (cases "map_of kvs ''children''")
      case None
      then show ?thesis using False by (auto split: sum.splits bool.splits)
    next
      case (Some ch)
      show ?thesis
      proof (cases ch)
        case (JArr ys)
        then show ?thesis using False Some 1 by (auto split: sum.splits bool.splits)
      qed (use False Some in \<open>auto split: sum.splits bool.splits\<close>)
    qed
  qed
next
  case (9 x xs)
  then show ?case by (auto split: sum.splits bool.splits)
qed simp_all

lemma text_visible_by_snapshot:
  "fst (text_visible E c text cs) =
     (case ui_windows E c of
        None \<Rightarrow> False
      | Some ws \<Rightarrow>
          (case search_in_list cs (if cs then text else lower text) ws of
             Inl e \<Rightarrow> False
           | Inr b \<Rightarrow> b))"
  by (cases "query_ui_state E c")
     (simp add: text_visible_def text_visible_try_def ui_windows_def Let_def
        split: sum.splits)

lemma count_elements_by_snapshot:
  "fst (count_elements_by_class E c cn) =
     (case ui_windows E c of None \<Rightarrow> 0 | Some ws \<Rightarrow> count_class_list cn ws)"
  by (cases "query_ui_state E c")
     (simp add: count_elements_by_class_def ui_windows_def split: sum.splits)

lemma count_class_all_nodes:
  "count_class cn v = length (filter (has_class cn) (all_nodes v))"
  "count_class_list cn xs = length (filter (has_class cn) (all_nodes_list xs))"
proof (induction v and xs rule: all_nodes_all_nodes_list.induct)
  case (1 kvs)
  then show ?case by (auto simp: has_class_def split: option.splits)
qed simp_all

lemma extract_texts_all_nodes:
  "extract_texts v = concat (map node_text (all_nodes v))"
  "extract_texts_list xs = concat (map node_text (all_nodes_list xs))"
proof (induction v and xs rule: all_nodes_all_nodes_list.induct)
  case (1 kvs)
  then show ?case by (auto simp: node_text_def split: option.splits)
qed simp_all

lemma all_nodes_descends:
  assumes "map_of kvs k = Some v" and "k = ''children'' \<or> k = ''contentView'' \<or> k = ''views''"
  shows "set (all_nodes v) \<subseteq> set (all_nodes (JObj kvs))"
  using assms by auto

text \<open>
  C10. \<open>text_visible\<close> follows list items and the key \<open>children\<close> only: when, in the
  snapshot it obtains, no node reachable from the windows through \<open>children\<close> has a
  text containing the search text, it returns \<open>False\<close>, wherever else the text occurs.
  On the same snapshot \<open>count_elements_by_class\<close> counts, and \<open>extract_texts\<close>
  collects from, every node reachable through the three keys \<open>children\<close>,
  \<open>contentView\<close> and \<open>views\<close>; the nodes below each of the three keys of a dict are
  among them.
\<close>

theorem text_visible_children_only:
  "(ui_windows E c = Some ws
      \<and> \<not> list_ex (text_matches cs (if cs then text else lower text)) (children_nodes_list ws)
      \<longrightarrow> fst (text_visible E c text cs) = False)
   \<and> (ui_windows E c = Some ws \<longrightarrow>
        fst (count_elements_by_class E c cn) =
          length (filter (has_class cn) (all_nodes_list ws)))
   \<and> extract_texts_list ws = concat (map node_text (all_nodes_list ws))
   \<and> (map_of kvs k = Some v \<and> (k = ''children'' \<or> k = ''contentView'' \<or> k = ''views'')
        \<longrightarrow> set (all_nodes v) \<subseteq> set (all_nodes (JObj kvs)))"
proof (intro conjI impI)
  show "fst (text_visible E c text cs) = False"
    if "ui_windows E c = Some ws
        \<and> \<not> list_ex (text_matches cs (if cs then text else lower text)) (children_nodes_list ws)"
    using that search_finds_children_node(2)[of cs "if cs then text else lower text" ws]
    by (auto simp: text_visible_by_snapshot split: sum.splits)
  show "fst (count_elements_by_class E c cn) =
          length (filter (has_class cn) (all_nodes_list ws))"
    if "ui_windows E c = Some ws"
    using that by (simp add: count_elements_by_snapshot count_class_all_nodes)
  show "extract_texts_list ws = concat (map node_text (all_nodes_list ws))"
    by (rule extract_texts_all_nodes)
  show "set (all_nodes v) \<subseteq> set (all_nodes (JObj kvs))"
    if "map_of kvs k = Some v \<and> (k = ''children'' \<or> k = ''contentView'' \<or> k = ''views'')"
    using that all_nodes_descends by blast
qed

lemma sample_children_nodes:
  "children_nodes_list sample_windows =
     [JObj [(''class'', JStr ''NSWindow''), (''title'', JStr ''Workspace''),
            (''contentView'',
               JObj [(''class'', JStr ''NSView''),
                     (''children'', JArr [
                        JObj [(''class'', JStr ''NSTextField''),
                              (''text'', JStr ''Hello'')]])])],
      JObj [(''class'', JStr ''NSPanel''), (''windowTitle'', JStr ''Info''),
            (''children'', JArr [
               JObj [(''class'', JStr ''NSButton''), (''text'', JStr ''OK'')]])],
      JObj [(''class'', JStr ''NSButton''), (''text'', JStr ''OK'')]]"
  by (simp add: sample_windows_def sample_ui_state_def)

lemma sample_all_nodes:
  "all_nodes_list sample_windows =
     [JObj [(''class'', JStr ''NSWindow''), (''title'', JStr ''Workspace''),
            (''contentView'',
               JObj [(''class'', JStr ''NSView''),
                     (''children'', JArr [
                        JObj [(''class'', JStr ''NSTextField''),
                              (''text'', JStr ''Hello'')]])])],
      JObj [(''class'', JStr ''NSView''),
            (''children'', JArr [
               JObj [(''class'', JStr ''NSTextField''), (''text'', JStr ''Hello'')]])],
      JObj [(''class'', JStr ''NSTextField''), (''text'', JStr ''Hello'')],
      JObj [(''class'', JStr ''NSPanel''), (''windowTitle'', JStr ''Info''),
            (''children'', JArr [
               JObj [(''class'', JStr ''NSButton''), (''text'', JStr ''OK'')]])],
      JObj [(''class'', JStr ''NSButton''), (''text'', JStr ''OK'')]]"
  by (simp add: sample_windows_def sample_ui_state_def)

theorem text_visible_children_only_witness:
  "fst (text_visible sample_env new_client ''Hello'' False) = False
   \<and> fst (count_elements_by_class sample_env new_client ''NSTextField'') = 1
   \<and> extract_texts_list sample_windows = [JStr ''Hello'', JStr ''OK'']
   \<and> fst (text_visible sample_env new_client ''ok'' False) = True"
proof -
  have found: "fst (text_visible sample_env new_client ''ok'' False) = True"
    by (simp add: text_visible_by_snapshot sample_ui_windows sample_windows_def
        sample_ui_state_def text_check_def lower_simps lower_char_def)
  show ?thesis
    using text_visible_children_only
            [of sample_env new_client sample_windows False "''Hello''" "''NSTextField''"]
          found
    by (simp add: sample_ui_windows sample_children_nodes sample_all_nodes text_matches_def
        text_check_def has_class_def node_text_def lower_simps lower_char_def)
qed

end
